theory Spec2Isabelle
  imports Main "HOL-Library.Word"
begin

unbundle bit_operations_syntax

section \<open>The report tree of \<open>class Comparison\<close>\<close>

text \<open>
  \<open>enum ItemType\<close>, \<open>struct Item\<close>, \<open>enum SectionType\<close> and \<open>struct Section\<close> of
  \<open>main.cpp\<close>. A \<open>Section\<close> owns the list of its subsections and the list of its
  items; both lists keep insertion order (\<open>std::list\<close>, \<open>emplace_back\<close>/\<open>push_back\<close>).
\<close>

datatype ItemType =
    Enum_Value_Id_Changed
  | Enum_Value_Added
  | Enum_Value_Removed
  | Message_Field_Name_Changed
  | Message_Field_Id_Changed
  | Message_Field_Label_Changed
  | Message_Field_Type_Changed
  | Message_Field_Default_Value_Changed
  | Message_Field_Added
  | Message_Field_Removed
  | File_Message_Added
  | File_Message_Removed
  | File_Enum_Added
  | File_Enum_Removed
  | Name_Missing

datatype Item = Item (item_type: ItemType) (item_a: string) (item_b: string)

datatype SectionType =
    Root_Section
  | Message_Comparison
  | Message_Field_Comparison
  | Enum_Comparison
  | Enum_Value_Comparison

datatype Section =
  Section (sec_type: SectionType) (sec_a: string) (sec_b: string)
          (subsections: "Section list") (items: "Item list")

text \<open>\<open>Section::add_item\<close>: \<open>items.emplace_back(t, a, b)\<close>.\<close>

fun add_item :: "Section \<Rightarrow> ItemType \<Rightarrow> string \<Rightarrow> string \<Rightarrow> Section" where
  "add_item (Section t a b subs its) ty x y = Section t a b subs (its @ [Item ty x y])"

text \<open>\<open>section.subsections.push_back(s)\<close>.\<close>

fun push_back :: "Section \<Rightarrow> Section \<Rightarrow> Section" where
  "push_back (Section t a b subs its) s = Section t a b (subs @ [s]) its"

text \<open>\<open>Section::is_empty\<close>: \<open>subsections.empty() and items.empty()\<close>.\<close>

fun is_empty :: "Section \<Rightarrow> bool" where
  "is_empty (Section t a b subs its) = (subs = [] \<and> its = [])"

text \<open>
  \<open>Section::trim\<close>. The \<open>while\<close> loop walks the subsections from first to last; each one
  is trimmed in place and then erased when it has become empty, kept otherwise.
  \<open>trim_loop\<close> is that loop over the remaining subsections.
\<close>

fun trim :: "Section \<Rightarrow> Section"
  and trim_loop :: "Section list \<Rightarrow> Section list" where
  "trim (Section t a b subs its) = Section t a b (trim_loop subs) its"
| "trim_loop [] = []"
| "trim_loop (s # rest) =
     (let s' = trim s in if is_empty s' then trim_loop rest else s' # trim_loop rest)"

text \<open>The root of a fresh \<open>Comparison\<close>: \<open>Section root { Root_Section, "", "" }\<close>.\<close>

definition root0 :: Section where
  "root0 = Section Root_Section '''' '''' [] []"

subsection \<open>Rendering\<close>

text \<open>\<open>Item::message\<close>. The \<open>default\<close> branch of the switch is not reachable from the
  fifteen enumerators.\<close>

fun item_label :: "ItemType \<Rightarrow> string" where
  "item_label Enum_Value_Id_Changed = ''Value ID changed''"
| "item_label Enum_Value_Added = ''Value added''"
| "item_label Enum_Value_Removed = ''Value removed''"
| "item_label Message_Field_Name_Changed = ''Name changed''"
| "item_label Message_Field_Id_Changed = ''ID changed''"
| "item_label Message_Field_Label_Changed = ''Label changed''"
| "item_label Message_Field_Type_Changed = ''Type changed''"
| "item_label Message_Field_Default_Value_Changed = ''Default value changed''"
| "item_label Message_Field_Added = ''Field added''"
| "item_label Message_Field_Removed = ''Field removed''"
| "item_label File_Message_Added = ''Message added''"
| "item_label File_Message_Removed = ''Message removed''"
| "item_label File_Enum_Added = ''Enum added''"
| "item_label File_Enum_Removed = ''Enum removed''"
| "item_label Name_Missing = ''Name missing''"

fun item_message :: "Item \<Rightarrow> string" where
  "item_message (Item ty a b) = item_label ty @ '': '' @ a @ '' -> '' @ b"

text \<open>\<open>Section::message\<close>.\<close>

fun message :: "Section \<Rightarrow> string" where
  "message (Section Root_Section a b subs its) = ''/''"
| "message (Section Message_Comparison a b subs its) =
     ''Comparing messages: '' @ a @ '' -> '' @ b"
| "message (Section Message_Field_Comparison a b subs its) =
     ''Comparing message fields: '' @ a @ '' -> '' @ b"
| "message (Section Enum_Comparison a b subs its) =
     ''Comparing enums: '' @ a @ '' -> '' @ b"
| "message (Section Enum_Value_Comparison a b subs its) =
     ''Comparing enum values: '' @ a @ '' -> '' @ b"

text \<open>
  \<open>Section::print\<close> writes to \<open>cout\<close>. The stream is modelled as the string written so
  far, passed through and returned. \<open>endl\<close> writes a line feed. \<open>print_items\<close> and
  \<open>print_subsections\<close> are the two \<open>for\<close> loops.
\<close>

definition endl :: string where
  "endl = [CHR 0x0A]"

fun print_items :: "string \<Rightarrow> Item list \<Rightarrow> string \<Rightarrow> string" where
  "print_items subprefix [] cout = cout"
| "print_items subprefix (item # rest) cout =
     print_items subprefix rest (cout @ subprefix @ ''* '' @ item_message item @ endl)"

fun print :: "nat \<Rightarrow> Section \<Rightarrow> string \<Rightarrow> string"
  and print_subsections :: "nat \<Rightarrow> Section list \<Rightarrow> string \<Rightarrow> string" where
  "print level (Section t a b subs its) cout =
     (let cout1 = cout @ replicate (level * 2) CHR '' '' @ message (Section t a b subs its) @ endl;
          level' = level + 1;
          subprefix = replicate (level' * 2) CHR '' '';
          cout2 = print_items subprefix its cout1
      in print_subsections level' subs cout2)"
| "print_subsections level [] cout = cout"
| "print_subsections level (subsection # rest) cout =
     print_subsections level rest (print level subsection cout)"

section \<open>The schema side: descriptors of the protobuf library\<close>

text \<open>
  Modelled from the spec: the descriptor classes of the protobuf library
  (\<open>EnumValueDescriptor\<close>, \<open>EnumDescriptor\<close>, \<open>FieldDescriptor\<close>, \<open>Descriptor\<close>,
  \<open>FileDescriptor\<close>, \<open>DescriptorPool\<close>), which \<open>main.cpp\<close> reads through their accessors
  and does not declare. They are the read-only schema-side entities of the
  specification: names, numbers, labels, types, default values, the ordered fields of a
  message, the ordered values of an enum, the top-level types of a file and the registry
  of a schema version. Each class is a record of the accessors that \<open>main.cpp\<close> calls.
  Numbers are C++ \<open>int\<close>, 32 bits wide.
\<close>

record EnumValueDescriptor =
  ev_name :: string
  ev_number :: "32 word"

record EnumDescriptor =
  enum_name :: string
  enum_full_name :: string
  enum_values :: "EnumValueDescriptor list"

datatype Label = LABEL_OPTIONAL | LABEL_REQUIRED | LABEL_REPEATED

datatype Type =
    TYPE_DOUBLE | TYPE_FLOAT | TYPE_INT64 | TYPE_UINT64 | TYPE_INT32 | TYPE_FIXED64
  | TYPE_FIXED32 | TYPE_BOOL | TYPE_STRING | TYPE_GROUP | TYPE_MESSAGE | TYPE_BYTES
  | TYPE_UINT32 | TYPE_ENUM | TYPE_SFIXED32 | TYPE_SFIXED64 | TYPE_SINT32 | TYPE_SINT64

datatype CppType =
    CPPTYPE_INT32 | CPPTYPE_INT64 | CPPTYPE_UINT32 | CPPTYPE_UINT64 | CPPTYPE_DOUBLE
  | CPPTYPE_FLOAT | CPPTYPE_BOOL | CPPTYPE_ENUM | CPPTYPE_STRING | CPPTYPE_MESSAGE

text \<open>
  A field descriptor. The default value is a union in the library, read through one
  accessor per C++ kind; the record has one component per accessor, so that each branch
  of \<open>compare_default_value\<close> reads exactly the accessor the source names. Floats and
  doubles are their IEEE-754 bit patterns. \<open>enum_type_ref\<close> and \<open>message_type_ref\<close> are
  the pointers behind \<open>enum_type()\<close> and \<open>message_type()\<close>: the full name under which
  the owning pool holds the referenced descriptor. A message may refer to itself, so the
  reference is kept as a name and not as a nested value.
\<close>

record FieldDescriptor =
  field_name :: string
  field_full_name :: string
  field_number :: "32 word"
  field_label :: Label
  field_type :: Type
  has_default_value :: bool
  default_value_int32 :: "32 word"
  default_value_int64 :: "64 word"
  default_value_uint32 :: "32 word"
  default_value_uint64 :: "64 word"
  default_value_float :: "32 word"
  default_value_double :: "64 word"
  default_value_bool :: bool
  default_value_string :: string
  default_value_enum :: EnumValueDescriptor
  enum_type_ref :: string
  message_type_ref :: string

record Descriptor =
  msg_name :: string
  msg_full_name :: string
  msg_fields :: "FieldDescriptor list"

record FileDescriptor =
  message_types :: "Descriptor list"
  enum_types :: "EnumDescriptor list"

record DescriptorPool =
  pool_messages :: "Descriptor list"
  pool_enums :: "EnumDescriptor list"

text \<open>\<open>class Source\<close>: the imported file and the pool of its importer.\<close>

record Source =
  file_descriptor :: FileDescriptor
  pool :: DescriptorPool

text \<open>\<open>FieldDescriptor::cpp_type\<close> and \<open>FieldDescriptor::type_name\<close> are functions of
  the declared type: the library's tables \<open>kTypeToCppTypeMap\<close> and \<open>kTypeToName\<close>.\<close>

fun cpp_type_of :: "Type \<Rightarrow> CppType" where
  "cpp_type_of TYPE_DOUBLE = CPPTYPE_DOUBLE"
| "cpp_type_of TYPE_FLOAT = CPPTYPE_FLOAT"
| "cpp_type_of TYPE_INT64 = CPPTYPE_INT64"
| "cpp_type_of TYPE_UINT64 = CPPTYPE_UINT64"
| "cpp_type_of TYPE_INT32 = CPPTYPE_INT32"
| "cpp_type_of TYPE_FIXED64 = CPPTYPE_UINT64"
| "cpp_type_of TYPE_FIXED32 = CPPTYPE_UINT32"
| "cpp_type_of TYPE_BOOL = CPPTYPE_BOOL"
| "cpp_type_of TYPE_STRING = CPPTYPE_STRING"
| "cpp_type_of TYPE_GROUP = CPPTYPE_MESSAGE"
| "cpp_type_of TYPE_MESSAGE = CPPTYPE_MESSAGE"
| "cpp_type_of TYPE_BYTES = CPPTYPE_STRING"
| "cpp_type_of TYPE_UINT32 = CPPTYPE_UINT32"
| "cpp_type_of TYPE_ENUM = CPPTYPE_ENUM"
| "cpp_type_of TYPE_SFIXED32 = CPPTYPE_INT32"
| "cpp_type_of TYPE_SFIXED64 = CPPTYPE_INT64"
| "cpp_type_of TYPE_SINT32 = CPPTYPE_INT32"
| "cpp_type_of TYPE_SINT64 = CPPTYPE_INT64"

definition cpp_type :: "FieldDescriptor \<Rightarrow> CppType" where
  "cpp_type f = cpp_type_of (field_type f)"

fun type_name_of :: "Type \<Rightarrow> string" where
  "type_name_of TYPE_DOUBLE = ''double''"
| "type_name_of TYPE_FLOAT = ''float''"
| "type_name_of TYPE_INT64 = ''int64''"
| "type_name_of TYPE_UINT64 = ''uint64''"
| "type_name_of TYPE_INT32 = ''int32''"
| "type_name_of TYPE_FIXED64 = ''fixed64''"
| "type_name_of TYPE_FIXED32 = ''fixed32''"
| "type_name_of TYPE_BOOL = ''bool''"
| "type_name_of TYPE_STRING = ''string''"
| "type_name_of TYPE_GROUP = ''group''"
| "type_name_of TYPE_MESSAGE = ''message''"
| "type_name_of TYPE_BYTES = ''bytes''"
| "type_name_of TYPE_UINT32 = ''uint32''"
| "type_name_of TYPE_ENUM = ''enum''"
| "type_name_of TYPE_SFIXED32 = ''sfixed32''"
| "type_name_of TYPE_SFIXED64 = ''sfixed64''"
| "type_name_of TYPE_SINT32 = ''sint32''"
| "type_name_of TYPE_SINT64 = ''sint64''"

definition type_name :: "FieldDescriptor \<Rightarrow> string" where
  "type_name f = type_name_of (field_type f)"

text \<open>Modelled from the spec: the lookups by name of the library. Each returns the
  entry of that name (the first one, should a list repeat a name), \<open>None\<close> for the null
  pointer.\<close>

definition FindValueByName :: "EnumDescriptor \<Rightarrow> string \<Rightarrow> EnumValueDescriptor option" where
  "FindValueByName e n = find (\<lambda>v. ev_name v = n) (enum_values e)"

definition FindFieldByName :: "Descriptor \<Rightarrow> string \<Rightarrow> FieldDescriptor option" where
  "FindFieldByName d n = find (\<lambda>f. field_name f = n) (msg_fields d)"

text \<open>\<open>FileDescriptor::FindMessageTypeByName\<close> and \<open>FindEnumTypeByName\<close>: top-level
  types of the file, by their short name.\<close>

definition FindMessageTypeByName :: "FileDescriptor \<Rightarrow> string \<Rightarrow> Descriptor option" where
  "FindMessageTypeByName file n = find (\<lambda>d. msg_name d = n) (message_types file)"

definition FindEnumTypeByName :: "FileDescriptor \<Rightarrow> string \<Rightarrow> EnumDescriptor option" where
  "FindEnumTypeByName file n = find (\<lambda>e. enum_name e = n) (enum_types file)"

text \<open>\<open>DescriptorPool::FindMessageTypeByName\<close> and \<open>FindEnumTypeByName\<close>: any type of
  the pool, by its full name.\<close>

definition pool_FindMessageTypeByName :: "DescriptorPool \<Rightarrow> string \<Rightarrow> Descriptor option" where
  "pool_FindMessageTypeByName P n = find (\<lambda>d. msg_full_name d = n) (pool_messages P)"

definition pool_FindEnumTypeByName :: "DescriptorPool \<Rightarrow> string \<Rightarrow> EnumDescriptor option" where
  "pool_FindEnumTypeByName P n = find (\<lambda>e. enum_full_name e = n) (pool_enums P)"

text \<open>\<open>field->enum_type()\<close> and \<open>field->message_type()\<close>: the reference of the field,
  resolved in the pool that owns the field.\<close>

definition enum_type :: "DescriptorPool \<Rightarrow> FieldDescriptor \<Rightarrow> EnumDescriptor option" where
  "enum_type P f = pool_FindEnumTypeByName P (enum_type_ref f)"

definition message_type :: "DescriptorPool \<Rightarrow> FieldDescriptor \<Rightarrow> Descriptor option" where
  "message_type P f = pool_FindMessageTypeByName P (message_type_ref f)"

subsection \<open>Values of the C++ kinds\<close>

text \<open>\<open>std::to_string(int)\<close>: the decimal digits, with a minus sign for a negative
  number.\<close>

fun digits10 :: "nat \<Rightarrow> string" where
  "digits10 n =
     (if n < 10 then [''0123456789'' ! n]
      else digits10 (n div 10) @ [''0123456789'' ! (n mod 10)])"

declare digits10.simps [simp del]

definition to_string :: "32 word \<Rightarrow> string" where
  "to_string w =
     (if sint w < 0 then CHR ''-'' # digits10 (nat (- sint w)) else digits10 (nat (sint w)))"

text \<open>
  \<open>==\<close> on \<open>float\<close> and \<open>double\<close> (IEEE 754): a NaN equals nothing, itself included; the
  two zeros are equal; any other two values are equal when their bits are.
\<close>

definition float_isnan :: "32 word \<Rightarrow> bool" where
  "float_isnan w = (w AND 0x7F800000 = 0x7F800000 \<and> w AND 0x007FFFFF \<noteq> 0)"

definition float_eq :: "32 word \<Rightarrow> 32 word \<Rightarrow> bool" where
  "float_eq x y =
     (\<not> float_isnan x \<and> \<not> float_isnan y \<and>
      (x = y \<or> (x AND 0x7FFFFFFF = 0 \<and> y AND 0x7FFFFFFF = 0)))"

definition double_isnan :: "64 word \<Rightarrow> bool" where
  "double_isnan w =
     (w AND 0x7FF0000000000000 = 0x7FF0000000000000 \<and> w AND 0x000FFFFFFFFFFFFF \<noteq> 0)"

definition double_eq :: "64 word \<Rightarrow> 64 word \<Rightarrow> bool" where
  "double_eq x y =
     (\<not> double_isnan x \<and> \<not> double_isnan y \<and>
      (x = y \<or> (x AND 0x7FFFFFFFFFFFFFFF = 0 \<and> y AND 0x7FFFFFFFFFFFFFFF = 0)))"

section \<open>The comparator\<close>

text \<open>
  \<open>Comparison::compare_default_value\<close>, branch by branch. The branches for
  \<open>CPPTYPE_UINT32\<close>, \<open>CPPTYPE_DOUBLE\<close>, \<open>CPPTYPE_BOOL\<close>, \<open>CPPTYPE_STRING\<close> and
  \<open>CPPTYPE_ENUM\<close> read \<open>field1\<close> on both sides of \<open>==\<close>, as the source does.
\<close>

definition compare_default_value :: "FieldDescriptor \<Rightarrow> FieldDescriptor \<Rightarrow> bool" where
  "compare_default_value field1 field2 =
     (if has_default_value field1 \<noteq> has_default_value field2 then False
      else if \<not> has_default_value field1 then True
      else if cpp_type field1 \<noteq> cpp_type field2 then False
      else (case cpp_type field1 of
              CPPTYPE_INT32 \<Rightarrow> default_value_int32 field1 = default_value_int32 field2
            | CPPTYPE_INT64 \<Rightarrow> default_value_int64 field1 = default_value_int64 field2
            | CPPTYPE_UINT32 \<Rightarrow> default_value_uint32 field1 = default_value_uint32 field1
            | CPPTYPE_UINT64 \<Rightarrow> default_value_uint64 field1 = default_value_uint64 field2
            | CPPTYPE_FLOAT \<Rightarrow> float_eq (default_value_float field1) (default_value_float field2)
            | CPPTYPE_DOUBLE \<Rightarrow>
                double_eq (default_value_double field1) (default_value_double field1)
            | CPPTYPE_BOOL \<Rightarrow> default_value_bool field1 = default_value_bool field1
            | CPPTYPE_STRING \<Rightarrow> default_value_string field1 = default_value_string field1
            | CPPTYPE_ENUM \<Rightarrow>
                ev_number (default_value_enum field1) = ev_number (default_value_enum field1)
            | CPPTYPE_MESSAGE \<Rightarrow> False))"

text \<open>
  \<open>Comparison::compare(const EnumDescriptor*, const EnumDescriptor*)\<close>. The section is
  threaded through the two \<open>for\<close> loops, \<open>enum_loop1\<close> over the values of \<open>enum1\<close> and
  \<open>enum_loop2\<close> over the values of \<open>enum2\<close>. \<open>value_subsection\<close> is the subsection that
  the first loop adds for a value found in both enums, with its item when the numbers
  differ.
\<close>

definition value_subsection :: "EnumValueDescriptor \<Rightarrow> EnumValueDescriptor \<Rightarrow> Section" where
  "value_subsection value1 value2 =
     (let subsection = Section Enum_Value_Comparison (ev_name value1) (ev_name value2) [] []
      in if ev_number value1 \<noteq> ev_number value2
         then add_item subsection Enum_Value_Id_Changed
                (to_string (ev_number value1)) (to_string (ev_number value2))
         else subsection)"

fun enum_loop1 :: "EnumDescriptor \<Rightarrow> EnumValueDescriptor list \<Rightarrow> Section \<Rightarrow> Section" where
  "enum_loop1 enum2 [] section = section"
| "enum_loop1 enum2 (value1 # rest) section =
     (case FindValueByName enum2 (ev_name value1) of
        Some value2 \<Rightarrow> enum_loop1 enum2 rest (push_back section (value_subsection value1 value2))
      | None \<Rightarrow> enum_loop1 enum2 rest (add_item section Enum_Value_Removed (ev_name value1) []))"

fun enum_loop2 :: "EnumDescriptor \<Rightarrow> EnumValueDescriptor list \<Rightarrow> Section \<Rightarrow> Section" where
  "enum_loop2 enum1 [] section = section"
| "enum_loop2 enum1 (value2 # rest) section =
     (case FindValueByName enum1 (ev_name value2) of
        None \<Rightarrow> enum_loop2 enum1 rest (add_item section Enum_Value_Added [] (ev_name value2))
      | Some value1 \<Rightarrow> enum_loop2 enum1 rest section)"

definition compare_enum :: "EnumDescriptor \<Rightarrow> EnumDescriptor \<Rightarrow> Section" where
  "compare_enum enum1 enum2 =
     (let section = Section Enum_Comparison (enum_full_name enum1) (enum_full_name enum2) [] [];
          section = enum_loop1 enum2 (enum_values enum1) section
      in enum_loop2 enum1 (enum_values enum2) section)"

text \<open>
  The message and field comparisons call each other, and a message type may refer to
  itself through a field, so the recursion of the source has no bound of its own. The
  model counts the nesting of \<open>compare(const Descriptor*, const Descriptor*)\<close> calls
  against a stack budget: a call that would exceed it does not return a section. A
  reference that does not resolve in its pool is a null pointer, and the source
  dereferences it.
\<close>

datatype failure = Stack_Exhausted | Null_Dereference

text \<open>The statements of the field comparison before the recursion: name, number and
  label.\<close>

definition field_head :: "FieldDescriptor \<Rightarrow> FieldDescriptor \<Rightarrow> Section" where
  "field_head field1 field2 =
     (let section = Section Message_Field_Comparison
                      (field_full_name field1) (field_full_name field2) [] [];
          section = (if field_name field1 \<noteq> field_name field2
                     then add_item section Message_Field_Name_Changed
                            (field_name field1) (field_name field2)
                     else section);
          section = (if field_number field1 \<noteq> field_number field2
                     then add_item section Message_Field_Id_Changed
                            (to_string (field_number field1)) (to_string (field_number field2))
                     else section)
      in if field_label field1 \<noteq> field_label field2
         then add_item section Message_Field_Label_Changed [] []
         else section)"

text \<open>The last statement of the field comparison: the default values, compared only
  when the two C++ kinds agree.\<close>

definition field_tail :: "FieldDescriptor \<Rightarrow> FieldDescriptor \<Rightarrow> Section \<Rightarrow> Section" where
  "field_tail field1 field2 section =
     (if cpp_type field1 = cpp_type field2
      then (if \<not> compare_default_value field1 field2
            then add_item section Message_Field_Default_Value_Changed [] []
            else section)
      else section)"

text \<open>The second \<open>for\<close> loop of the message comparison, over the fields of \<open>desc2\<close>.\<close>

fun msg_loop2 :: "Descriptor \<Rightarrow> FieldDescriptor list \<Rightarrow> Section \<Rightarrow> Section" where
  "msg_loop2 desc1 [] section = section"
| "msg_loop2 desc1 (field2 # rest) section =
     (case FindFieldByName desc1 (field_name field2) of
        None \<Rightarrow>
          msg_loop2 desc1 rest (add_item section Message_Field_Added [] (field_name field2))
      | Some field1 \<Rightarrow> msg_loop2 desc1 rest section)"

text \<open>
  \<open>Comparison::compare(const Descriptor*, const Descriptor*)\<close> with its first loop
  \<open>msg_loop1\<close>, and \<open>Comparison::compare(const FieldDescriptor*, const FieldDescriptor*)\<close>.
\<close>

fun compare_msg ::
    "nat \<Rightarrow> DescriptorPool \<Rightarrow> DescriptorPool \<Rightarrow> Descriptor \<Rightarrow> Descriptor \<Rightarrow> failure + Section"
  and msg_loop1 ::
    "nat \<Rightarrow> DescriptorPool \<Rightarrow> DescriptorPool \<Rightarrow> Descriptor \<Rightarrow> FieldDescriptor list \<Rightarrow> Section
       \<Rightarrow> failure + Section"
  and compare_field ::
    "nat \<Rightarrow> DescriptorPool \<Rightarrow> DescriptorPool \<Rightarrow> FieldDescriptor \<Rightarrow> FieldDescriptor
       \<Rightarrow> failure + Section"
where
  "compare_msg 0 P1 P2 desc1 desc2 = Inl Stack_Exhausted"
| "compare_msg (Suc n) P1 P2 desc1 desc2 =
     (case msg_loop1 n P1 P2 desc2 (msg_fields desc1)
             (Section Message_Comparison (msg_full_name desc1) (msg_full_name desc2) [] []) of
        Inl e \<Rightarrow> Inl e
      | Inr section \<Rightarrow> Inr (msg_loop2 desc1 (msg_fields desc2) section))"
| "msg_loop1 n P1 P2 desc2 [] section = Inr section"
| "msg_loop1 n P1 P2 desc2 (field1 # rest) section =
     (case FindFieldByName desc2 (field_name field1) of
        Some field2 \<Rightarrow>
          (case compare_field n P1 P2 field1 field2 of
             Inl e \<Rightarrow> Inl e
           | Inr s \<Rightarrow> msg_loop1 n P1 P2 desc2 rest (push_back section s))
      | None \<Rightarrow>
          msg_loop1 n P1 P2 desc2 rest
            (add_item section Message_Field_Removed (field_name field1) []))"
| "compare_field n P1 P2 field1 field2 =
     (let section = field_head field1 field2 in
      if field_type field1 \<noteq> field_type field2 then
        Inr (field_tail field1 field2
               (add_item section Message_Field_Type_Changed
                  (type_name field1) (type_name field2)))
      else if field_type field1 = TYPE_ENUM then
        (case enum_type P1 field1 of
           None \<Rightarrow> Inl Null_Dereference
         | Some enum1 \<Rightarrow>
             (case enum_type P2 field2 of
                None \<Rightarrow> Inl Null_Dereference
              | Some enum2 \<Rightarrow>
                  (let section =
                         (if enum_full_name enum1 \<noteq> enum_full_name enum2
                          then add_item section Message_Field_Type_Changed
                                 (enum_full_name enum1) (enum_full_name enum2)
                          else section)
                   in Inr (field_tail field1 field2
                             (push_back section (compare_enum enum1 enum2))))))
      else if field_type field1 = TYPE_MESSAGE then
        (case message_type P1 field1 of
           None \<Rightarrow> Inl Null_Dereference
         | Some msg1 \<Rightarrow>
             (case message_type P2 field2 of
                None \<Rightarrow> Inl Null_Dereference
              | Some msg2 \<Rightarrow>
                  (let section =
                         (if msg_full_name msg1 \<noteq> msg_full_name msg2
                          then add_item section Message_Field_Type_Changed
                                 (msg_full_name msg1) (msg_full_name msg2)
                          else section)
                   in case compare_msg n P1 P2 msg1 msg2 of
                        Inl e \<Rightarrow> Inl e
                      | Inr s \<Rightarrow> Inr (field_tail field1 field2 (push_back section s)))))
      else Inr (field_tail field1 field2 section))"

declare compare_field.simps [simp del]

section \<open>The entry points\<close>

text \<open>
  \<open>Comparison::compare(Source &, Source &)\<close> appends to the member \<open>root\<close>; the model takes
  the root and returns it updated. The four \<open>for\<close> loops are \<open>file_msg_loop1\<close>,
  \<open>file_msg_loop2\<close>, \<open>file_enum_loop1\<close> and \<open>file_enum_loop2\<close>, in the order of the source.
\<close>

fun file_msg_loop1 ::
  "nat \<Rightarrow> DescriptorPool \<Rightarrow> DescriptorPool \<Rightarrow> FileDescriptor \<Rightarrow> Descriptor list \<Rightarrow> Section
     \<Rightarrow> failure + Section" where
  "file_msg_loop1 n P1 P2 file2 [] root = Inr root"
| "file_msg_loop1 n P1 P2 file2 (msg1 # rest) root =
     (case FindMessageTypeByName file2 (msg_name msg1) of
        Some msg2 \<Rightarrow>
          (case compare_msg n P1 P2 msg1 msg2 of
             Inl e \<Rightarrow> Inl e
           | Inr s \<Rightarrow> file_msg_loop1 n P1 P2 file2 rest (push_back root s))
      | None \<Rightarrow>
          file_msg_loop1 n P1 P2 file2 rest
            (add_item root File_Message_Removed (msg_full_name msg1) []))"

fun file_msg_loop2 :: "FileDescriptor \<Rightarrow> Descriptor list \<Rightarrow> Section \<Rightarrow> Section" where
  "file_msg_loop2 file1 [] root = root"
| "file_msg_loop2 file1 (msg2 # rest) root =
     (case FindMessageTypeByName file1 (msg_name msg2) of
        None \<Rightarrow>
          file_msg_loop2 file1 rest (add_item root File_Message_Added '' '' (msg_full_name msg2))
      | Some msg1 \<Rightarrow> file_msg_loop2 file1 rest root)"

fun file_enum_loop1 :: "FileDescriptor \<Rightarrow> EnumDescriptor list \<Rightarrow> Section \<Rightarrow> Section" where
  "file_enum_loop1 file2 [] root = root"
| "file_enum_loop1 file2 (enum1 # rest) root =
     (case FindEnumTypeByName file2 (enum_name enum1) of
        Some enum2 \<Rightarrow> file_enum_loop1 file2 rest (push_back root (compare_enum enum1 enum2))
      | None \<Rightarrow>
          file_enum_loop1 file2 rest (add_item root File_Enum_Removed (enum_full_name enum1) []))"

fun file_enum_loop2 :: "FileDescriptor \<Rightarrow> EnumDescriptor list \<Rightarrow> Section \<Rightarrow> Section" where
  "file_enum_loop2 file1 [] root = root"
| "file_enum_loop2 file1 (enum2 # rest) root =
     (case FindEnumTypeByName file1 (enum_name enum2) of
        None \<Rightarrow>
          file_enum_loop2 file1 rest (add_item root File_Enum_Added [] (enum_full_name enum2))
      | Some enum1 \<Rightarrow> file_enum_loop2 file1 rest root)"

definition compare_sources :: "nat \<Rightarrow> Source \<Rightarrow> Source \<Rightarrow> Section \<Rightarrow> failure + Section" where
  "compare_sources n source1 source2 root =
     (let file1 = file_descriptor source1; file2 = file_descriptor source2 in
      case file_msg_loop1 n (pool source1) (pool source2) file2 (message_types file1) root of
        Inl e \<Rightarrow> Inl e
      | Inr root \<Rightarrow>
          (let root = file_msg_loop2 file1 (message_types file2) root;
               root = file_enum_loop1 file2 (enum_types file1) root
           in Inr (file_enum_loop2 file1 (enum_types file2) root)))"

text \<open>\<open>Comparison::compare(Source &, Source &, const string &)\<close>.\<close>

definition compare_name ::
  "nat \<Rightarrow> Source \<Rightarrow> Source \<Rightarrow> string \<Rightarrow> Section \<Rightarrow> failure + Section" where
  "compare_name n source1 source2 message_or_enum_name root =
     (let desc1 = pool_FindMessageTypeByName (pool source1) message_or_enum_name;
          desc2 = pool_FindMessageTypeByName (pool source2) message_or_enum_name;
          enum1 = pool_FindEnumTypeByName (pool source1) message_or_enum_name;
          enum2 = pool_FindEnumTypeByName (pool source2) message_or_enum_name
      in case (desc1, desc2) of
           (Some d1, Some d2) \<Rightarrow>
             (case compare_msg n (pool source1) (pool source2) d1 d2 of
                Inl e \<Rightarrow> Inl e
              | Inr s \<Rightarrow> Inr (push_back root s))
         | _ \<Rightarrow>
             (case (enum1, enum2) of
                (Some e1, Some e2) \<Rightarrow> Inr (push_back root (compare_enum e1 e2))
              | _ \<Rightarrow>
                  Inr (add_item root Name_Missing message_or_enum_name message_or_enum_name)))"

text \<open>
  \<open>main\<close> after the two sources are loaded: a fresh \<open>Comparison\<close>, the comparison chosen
  by the last argument (\<open>"."\<close> for the whole files), then \<open>root.trim()\<close> and
  \<open>root.print()\<close>. The result is what the run writes to \<open>cout\<close>.
\<close>

definition run_comparison :: "nat \<Rightarrow> Source \<Rightarrow> Source \<Rightarrow> string \<Rightarrow> failure + Section" where
  "run_comparison n source1 source2 message_name =
     (if message_name = ''.'' then compare_sources n source1 source2 root0
      else compare_name n source1 source2 message_name root0)"

definition main :: "nat \<Rightarrow> Source \<Rightarrow> Source \<Rightarrow> string \<Rightarrow> failure + string" where
  "main n source1 source2 message_name =
     (case run_comparison n source1 source2 message_name of
        Inl e \<Rightarrow> Inl e
      | Inr root \<Rightarrow> Inr (print 0 (trim root) []))"

section \<open>Properties of report trees and schemas\<close>

text \<open>A section has an item somewhere in its subtree.\<close>

fun has_item :: "Section \<Rightarrow> bool"
  and has_item_list :: "Section list \<Rightarrow> bool" where
  "has_item (Section t a b subs its) = (its \<noteq> [] \<or> has_item_list subs)"
| "has_item_list [] = False"
| "has_item_list (s # rest) = (has_item s \<or> has_item_list rest)"

text \<open>All items of a tree, the section's own first, then those of its subsections in
  order.\<close>

fun all_items :: "Section \<Rightarrow> Item list"
  and all_items_list :: "Section list \<Rightarrow> Item list" where
  "all_items (Section t a b subs its) = its @ all_items_list subs"
| "all_items_list [] = []"
| "all_items_list (s # rest) = all_items s @ all_items_list rest"

text \<open>The sections below a section: its subsections, each followed by its own
  descendants.\<close>

fun descendants :: "Section \<Rightarrow> Section list"
  and descendants_list :: "Section list \<Rightarrow> Section list" where
  "descendants (Section t a b subs its) = descendants_list subs"
| "descendants_list [] = []"
| "descendants_list (s # rest) = s # descendants s @ descendants_list rest"

text \<open>
  The rendering as the specification words it, line by line: the section's own line,
  then one bullet line per item, then the renderings of the subsections one level
  deeper. A level of indentation is two spaces.
\<close>

definition indent :: "nat \<Rightarrow> string" where
  "indent level = replicate (2 * level) CHR '' ''"

fun spec_render :: "nat \<Rightarrow> Section \<Rightarrow> string list"
  and spec_render_list :: "nat \<Rightarrow> Section list \<Rightarrow> string list" where
  "spec_render level (Section t a b subs its) =
     (indent level @ message (Section t a b subs its))
     # map (\<lambda>item. indent (level + 1) @ ''* '' @ item_message item) its
     @ spec_render_list (level + 1) subs"
| "spec_render_list level [] = []"
| "spec_render_list level (s # rest) = spec_render level s @ spec_render_list level rest"

text \<open>The text of a list of lines, each ended by \<open>endl\<close>.\<close>

definition unlines :: "string list \<Rightarrow> string" where
  "unlines ls = concat (map (\<lambda>l. l @ endl) ls)"

text \<open>
  What the protobuf library guarantees of a pool it has built: value names are unique
  within an enum and field names within a message, a field of message kind has no
  default value, and the type reference of an enum or message field resolves in the pool.
\<close>

definition valid_enum :: "EnumDescriptor \<Rightarrow> bool" where
  "valid_enum e = distinct (map ev_name (enum_values e))"

definition valid_field :: "DescriptorPool \<Rightarrow> FieldDescriptor \<Rightarrow> bool" where
  "valid_field P f =
     ((cpp_type f = CPPTYPE_MESSAGE \<longrightarrow> \<not> has_default_value f)
      \<and> (field_type f = TYPE_ENUM \<longrightarrow> enum_type P f \<noteq> None)
      \<and> (field_type f = TYPE_MESSAGE \<longrightarrow> message_type P f \<noteq> None))"

definition valid_msg :: "DescriptorPool \<Rightarrow> Descriptor \<Rightarrow> bool" where
  "valid_msg P d =
     (distinct (map field_name (msg_fields d)) \<and> list_all (valid_field P) (msg_fields d))"

definition valid_pool :: "DescriptorPool \<Rightarrow> bool" where
  "valid_pool P = (list_all (valid_msg P) (pool_messages P) \<and> list_all valid_enum (pool_enums P))"

text \<open>A source as the importer builds it: a valid pool that holds the top-level types
  of the file, whose names are unique within the file.\<close>

definition valid_source :: "Source \<Rightarrow> bool" where
  "valid_source S =
     (valid_pool (pool S)
      \<and> distinct (map msg_name (message_types (file_descriptor S)))
      \<and> distinct (map enum_name (enum_types (file_descriptor S)))
      \<and> list_all (\<lambda>d. d \<in> set (pool_messages (pool S))) (message_types (file_descriptor S))
      \<and> list_all (\<lambda>e. e \<in> set (pool_enums (pool S))) (enum_types (file_descriptor S)))"

text \<open>No \<open>float\<close> or \<open>double\<close> field has a NaN as its default value.\<close>

definition nan_free :: "FieldDescriptor \<Rightarrow> bool" where
  "nan_free f =
     (has_default_value f \<longrightarrow>
        (cpp_type f = CPPTYPE_FLOAT \<longrightarrow> \<not> float_isnan (default_value_float f))
        \<and> (cpp_type f = CPPTYPE_DOUBLE \<longrightarrow> \<not> double_isnan (default_value_double f)))"

definition nan_free_pool :: "DescriptorPool \<Rightarrow> bool" where
  "nan_free_pool P = list_all (\<lambda>d. list_all nan_free (msg_fields d)) (pool_messages P)"

text \<open>
  The message type \<open>d\<close> nests message-typed fields to a depth below \<open>n\<close>: following
  references of kind \<open>TYPE_MESSAGE\<close> from \<open>d\<close> through the pool ends after fewer than \<open>n\<close>
  steps. No \<open>n\<close> bounds a message type that reaches itself.
\<close>

fun nesting_within :: "nat \<Rightarrow> DescriptorPool \<Rightarrow> Descriptor \<Rightarrow> bool" where
  "nesting_within 0 P d = False"
| "nesting_within (Suc n) P d =
     list_all (\<lambda>f. field_type f = TYPE_MESSAGE \<longrightarrow>
                 (case message_type P f of None \<Rightarrow> False | Some d' \<Rightarrow> nesting_within n P d'))
       (msg_fields d)"

text \<open>
  The report as the specification words the comparisons, in closed form. For each
  entity of the first side the same-named entity of the second side is looked up:
  \<open>matched\<close> lists the pairs that are found, \<open>unmatched\<close> the entities without a
  counterpart, both in declaration order.
\<close>

definition matched :: "('a \<Rightarrow> 'b option) \<Rightarrow> 'a list \<Rightarrow> ('a \<times> 'b) list" where
  "matched counterpart xs =
     concat (map (\<lambda>x. case counterpart x of None \<Rightarrow> [] | Some y \<Rightarrow> [(x, y)]) xs)"

definition unmatched :: "('a \<Rightarrow> 'b option) \<Rightarrow> 'a list \<Rightarrow> 'a list" where
  "unmatched counterpart xs = filter (\<lambda>x. counterpart x = None) xs"







section \<open>Example schemas\<close>

text \<open>A field without a default value; the accessors of the other kinds return their
  zero values.\<close>

definition plain_field :: "string \<Rightarrow> string \<Rightarrow> 32 word \<Rightarrow> Type \<Rightarrow> FieldDescriptor" where
  "plain_field n fn i ty =
     \<lparr>field_name = n, field_full_name = fn, field_number = i, field_label = LABEL_OPTIONAL,
      field_type = ty, has_default_value = False,
      default_value_int32 = 0, default_value_int64 = 0, default_value_uint32 = 0,
      default_value_uint64 = 0, default_value_float = 0, default_value_double = 0,
      default_value_bool = False, default_value_string = [],
      default_value_enum = \<lparr>ev_name = [], ev_number = 0\<rparr>,
      enum_type_ref = [], message_type_ref = []\<rparr>"

text \<open>\<open>optional uint32 x = 1 [default = v]\<close> in message \<open>P\<close>.\<close>

definition u32_field :: "32 word \<Rightarrow> FieldDescriptor" where
  "u32_field v = (plain_field ''x'' ''P.x'' 1 TYPE_UINT32)
                   \<lparr>has_default_value := True, default_value_uint32 := v\<rparr>"

text \<open>\<open>optional double x = 1 [default = v]\<close> in message \<open>P\<close>, \<open>v\<close> given by its bits.\<close>

definition double_field :: "64 word \<Rightarrow> FieldDescriptor" where
  "double_field v = (plain_field ''x'' ''P.x'' 1 TYPE_DOUBLE)
                   \<lparr>has_default_value := True, default_value_double := v\<rparr>"

text \<open>\<open>message P { optional float x = 1 [default = nan]; }\<close> as the only type of a file.\<close>

definition nan_msg :: Descriptor where
  "nan_msg =
     \<lparr>msg_name = ''P'', msg_full_name = ''P'',
      msg_fields = [(plain_field ''x'' ''P.x'' 1 TYPE_FLOAT)
                      \<lparr>has_default_value := True, default_value_float := 0x7FC00000\<rparr>]\<rparr>"

definition nan_source :: Source where
  "nan_source =
     \<lparr>file_descriptor = \<lparr>message_types = [nan_msg], enum_types = []\<rparr>,
      pool = \<lparr>pool_messages = [nan_msg], pool_enums = []\<rparr>\<rparr>"



text \<open>
  A file with a nested message, an enum and defaults:
  \<open>enum Color { RED = 0; GREEN = 1; }\<close>,
  \<open>message Inner { optional int32 x = 1 [default = 5]; }\<close>,
  \<open>message Outer { optional Inner inner = 1; optional Color color = 2; }\<close>.
\<close>

definition color_enum :: EnumDescriptor where
  "color_enum =
     \<lparr>enum_name = ''Color'', enum_full_name = ''pkg.Color'',
      enum_values = [\<lparr>ev_name = ''RED'', ev_number = 0\<rparr>, \<lparr>ev_name = ''GREEN'', ev_number = 1\<rparr>]\<rparr>"

definition inner_msg :: Descriptor where
  "inner_msg =
     \<lparr>msg_name = ''Inner'', msg_full_name = ''pkg.Inner'',
      msg_fields = [(plain_field ''x'' ''pkg.Inner.x'' 1 TYPE_INT32)
                      \<lparr>has_default_value := True, default_value_int32 := 5\<rparr>]\<rparr>"

definition outer_msg :: Descriptor where
  "outer_msg =
     \<lparr>msg_name = ''Outer'', msg_full_name = ''pkg.Outer'',
      msg_fields = [(plain_field ''inner'' ''pkg.Outer.inner'' 1 TYPE_MESSAGE)
                      \<lparr>message_type_ref := ''pkg.Inner''\<rparr>,
                    (plain_field ''color'' ''pkg.Outer.color'' 2 TYPE_ENUM)
                      \<lparr>enum_type_ref := ''pkg.Color''\<rparr>]\<rparr>"

definition shop_source :: Source where
  "shop_source =
     \<lparr>file_descriptor = \<lparr>message_types = [inner_msg, outer_msg], enum_types = [color_enum]\<rparr>,
      pool = \<lparr>pool_messages = [inner_msg, outer_msg], pool_enums = [color_enum]\<rparr>\<rparr>"

text \<open>A file with no types, and a file whose only type is \<open>message M { }\<close> of package
  \<open>pkg\<close>.\<close>

definition empty_source :: Source where
  "empty_source =
     \<lparr>file_descriptor = \<lparr>message_types = [], enum_types = []\<rparr>,
      pool = \<lparr>pool_messages = [], pool_enums = []\<rparr>\<rparr>"

definition m_msg :: Descriptor where
  "m_msg = \<lparr>msg_name = ''M'', msg_full_name = ''pkg.M'', msg_fields = []\<rparr>"

definition m_source :: Source where
  "m_source =
     \<lparr>file_descriptor = \<lparr>message_types = [m_msg], enum_types = []\<rparr>,
      pool = \<lparr>pool_messages = [m_msg], pool_enums = []\<rparr>\<rparr>"

text \<open>A file whose only type is \<open>enum M { }\<close> of package \<open>pkg\<close>: the name \<open>pkg.M\<close> is an
  enum here and a message in \<open>m_source\<close>.\<close>

definition m_enum_source :: Source where
  "m_enum_source =
     \<lparr>file_descriptor =
        \<lparr>message_types = [],
         enum_types = [\<lparr>enum_name = ''M'', enum_full_name = ''pkg.M'', enum_values = []\<rparr>]\<rparr>,
      pool =
        \<lparr>pool_messages = [],
         pool_enums = [\<lparr>enum_name = ''M'', enum_full_name = ''pkg.M'', enum_values = []\<rparr>]\<rparr>\<rparr>"

text \<open>\<open>enum E { A = 1; }\<close> and \<open>enum E { B = 1; }\<close>.\<close>

definition enum_E_A :: EnumDescriptor where
  "enum_E_A = \<lparr>enum_name = ''E'', enum_full_name = ''E'',
                enum_values = [\<lparr>ev_name = ''A'', ev_number = 1\<rparr>]\<rparr>"

definition enum_E_B :: EnumDescriptor where
  "enum_E_B = \<lparr>enum_name = ''E'', enum_full_name = ''E'',
                enum_values = [\<lparr>ev_name = ''B'', ev_number = 1\<rparr>]\<rparr>"

text \<open>A report tree: a root with an empty message section, a message section whose
  only descendant is an empty field section, and an enum section with one item.\<close>

definition sample_tree :: Section where
  "sample_tree =
     Section Root_Section [] []
       [Section Message_Comparison ''P'' ''P'' [] [],
        Section Message_Comparison ''Q'' ''Q''
          [Section Message_Field_Comparison ''Q.x'' ''Q.x'' [] []] [],
        Section Enum_Comparison ''E'' ''E''
          [Section Enum_Value_Comparison ''A'' ''A'' [] [Item Enum_Value_Id_Changed ''1'' ''2'']]
          []]
       []"







section \<open>Default values\<close>

lemma double_eq_self: "double_eq x x = (\<not> double_isnan x)"
  by (auto simp: double_eq_def)

lemma float_eq_self: "float_eq x x = (\<not> float_isnan x)"
  by (auto simp: float_eq_def)

text \<open>
  Claim C2, as the code has it. When both fields have a default value of the same C++
  kind and that kind is unsigned 32-bit, bool, string or enum, the check answers
  \<open>True\<close> whatever the two values are. For kind double it compares the first field's
  value with itself under IEEE equality: the answer is \<open>True\<close> exactly when that value is
  not a NaN, and never depends on the second field's value.
\<close>

theorem default_self_comparison:
  assumes "has_default_value field1" and "has_default_value field2"
    and "cpp_type field1 = cpp_type field2"
  shows "(cpp_type field1 \<in> {CPPTYPE_UINT32, CPPTYPE_BOOL, CPPTYPE_STRING, CPPTYPE_ENUM}
            \<longrightarrow> compare_default_value field1 field2)
       \<and> (cpp_type field1 = CPPTYPE_DOUBLE
            \<longrightarrow> compare_default_value field1 field2
                  = (\<not> double_isnan (default_value_double field1)))"
  using assms by (auto simp: compare_default_value_def double_eq_self)

theorem default_self_comparison_witness:
  "has_default_value (u32_field 1) \<and> has_default_value (u32_field 2)
   \<and> cpp_type (u32_field 1) = cpp_type (u32_field 2)
   \<and> cpp_type (u32_field 1) \<in> {CPPTYPE_UINT32, CPPTYPE_BOOL, CPPTYPE_STRING, CPPTYPE_ENUM}
   \<and> default_value_uint32 (u32_field 1) \<noteq> default_value_uint32 (u32_field 2)
   \<and> compare_default_value (u32_field 1) (u32_field 2)
   \<and> cpp_type (double_field 0x3FF0000000000000) = CPPTYPE_DOUBLE
   \<and> compare_default_value (double_field 0x3FF0000000000000) (double_field 0x4000000000000000)"
  using default_self_comparison [of "u32_field 1" "u32_field 2"]
    default_self_comparison [of "double_field 0x3FF0000000000000" "double_field 0x4000000000000000"]
  by (simp add: u32_field_def double_field_def plain_field_def cpp_type_def double_isnan_def)

text \<open>
  The claim as the specification words it fails for kind double: with the default value
  NaN (bits \<open>0x7FF8000000000000\<close>) in both fields, \<open>x == x\<close> is false and the check
  answers \<open>False\<close>.
\<close>

theorem double_nan_default_counterexample:
  "has_default_value (double_field 0x7FF8000000000000)
   \<and> cpp_type (double_field 0x7FF8000000000000) = CPPTYPE_DOUBLE
   \<and> \<not> compare_default_value (double_field 0x7FF8000000000000) (double_field 0x7FF8000000000000)"
  by (simp add: double_field_def plain_field_def cpp_type_def compare_default_value_def
        double_eq_def double_isnan_def)

text \<open>
  Claim C1 at two fields \<open>optional uint32 x = 1\<close> of the same name, number, label and type
  whose default values are 1 and 2: the two fields have the same C++ kind, both have a
  default, the defaults differ, and the field section holds no item at all, so no
  \<open>Message_Field_Default_Value_Changed\<close>.
\<close>

theorem uint32_default_change_not_reported:
  "cpp_type (u32_field 1) = cpp_type (u32_field 2)
   \<and> has_default_value (u32_field 1) \<and> has_default_value (u32_field 2)
   \<and> default_value_uint32 (u32_field 1) \<noteq> default_value_uint32 (u32_field 2)
   \<and> compare_field 0 P1 P2 (u32_field 1) (u32_field 2)
        = Inr (Section Message_Field_Comparison ''P.x'' ''P.x'' [] [])"
  by (simp add: compare_field.simps u32_field_def plain_field_def cpp_type_def
        compare_default_value_def field_head_def field_tail_def)

section \<open>Comparison of a single name\<close>

text \<open>
  Claim C7. A name that the first pool resolves to a message type, that the second pool
  does not resolve to a message type, and that neither pool resolves to an enum type:
  the comparison of that name leaves the root with exactly one item, \<open>Name_Missing\<close>
  with the name on both sides, and with no subsection.
\<close>

theorem name_missing_absent_in_second:
  assumes "pool_FindMessageTypeByName (pool source1) name = Some d1"
    and "pool_FindMessageTypeByName (pool source2) name = None"
    and "pool_FindEnumTypeByName (pool source1) name = None"
    and "pool_FindEnumTypeByName (pool source2) name = None"
  shows "compare_name n source1 source2 name root0
           = Inr (Section Root_Section [] [] [] [Item Name_Missing name name])"
  using assms by (simp add: compare_name_def root0_def)

theorem name_missing_absent_in_second_witness:
  "pool_FindMessageTypeByName (pool m_source) ''pkg.M'' = Some m_msg
   \<and> pool_FindMessageTypeByName (pool empty_source) ''pkg.M'' = None
   \<and> pool_FindEnumTypeByName (pool m_source) ''pkg.M'' = None
   \<and> pool_FindEnumTypeByName (pool empty_source) ''pkg.M'' = None
   \<and> compare_name 0 m_source empty_source ''pkg.M'' root0
        = Inr (Section Root_Section [] [] [] [Item Name_Missing ''pkg.M'' ''pkg.M''])"
proof -
  have a: "pool_FindMessageTypeByName (pool m_source) ''pkg.M'' = Some m_msg"
    by (simp add: pool_FindMessageTypeByName_def m_source_def m_msg_def)
  have b: "pool_FindMessageTypeByName (pool empty_source) ''pkg.M'' = None"
    by (simp add: pool_FindMessageTypeByName_def empty_source_def)
  have c: "pool_FindEnumTypeByName (pool m_source) ''pkg.M'' = None"
    by (simp add: pool_FindEnumTypeByName_def m_source_def)
  have d: "pool_FindEnumTypeByName (pool empty_source) ''pkg.M'' = None"
    by (simp add: pool_FindEnumTypeByName_def empty_source_def)
  from name_missing_absent_in_second [OF a b c d, of 0] a b c d show ?thesis by simp
qed

text \<open>
  Claim C10. When the name is a message type in one pool and only an enum type in the
  other, the result is the root with the single item \<open>Name_Missing\<close> and no subsection:
  neither comparison is entered. And whenever the result does have a subsection, the
  name is a message type in both pools or an enum type in both pools.
\<close>

theorem cross_kind_name_missing:
  fixes source1 source2 :: Source and name :: string
  defines "desc1 \<equiv> pool_FindMessageTypeByName (pool source1) name"
    and "desc2 \<equiv> pool_FindMessageTypeByName (pool source2) name"
    and "enum1 \<equiv> pool_FindEnumTypeByName (pool source1) name"
    and "enum2 \<equiv> pool_FindEnumTypeByName (pool source2) name"
  shows "((desc1 \<noteq> None \<and> enum1 = None \<and> desc2 = None \<and> enum2 \<noteq> None)
          \<or> (desc1 = None \<and> enum1 \<noteq> None \<and> desc2 \<noteq> None \<and> enum2 = None)
            \<longrightarrow> compare_name n source1 source2 name root0
                  = Inr (Section Root_Section [] [] [] [Item Name_Missing name name]))
       \<and> (compare_name n source1 source2 name root0 = Inr r \<and> subsections r \<noteq> []
            \<longrightarrow> (desc1 \<noteq> None \<and> desc2 \<noteq> None) \<or> (enum1 \<noteq> None \<and> enum2 \<noteq> None))"
  unfolding desc1_def desc2_def enum1_def enum2_def
  by (auto simp: compare_name_def root0_def Let_def split: option.splits sum.splits)

theorem cross_kind_name_missing_witness:
  "compare_name 0 m_source m_enum_source ''pkg.M'' root0
     = Inr (Section Root_Section [] [] [] [Item Name_Missing ''pkg.M'' ''pkg.M''])
   \<and> compare_name 0 m_enum_source m_source ''pkg.M'' root0
     = Inr (Section Root_Section [] [] [] [Item Name_Missing ''pkg.M'' ''pkg.M''])
   \<and> compare_name 1 m_source m_source ''pkg.M'' root0
     = Inr (Section Root_Section [] [] [Section Message_Comparison ''pkg.M'' ''pkg.M'' [] []] [])
   \<and> pool_FindMessageTypeByName (pool m_source) ''pkg.M'' \<noteq> None"
proof -
  have a: "pool_FindMessageTypeByName (pool m_source) ''pkg.M'' = Some m_msg"
    by (simp add: pool_FindMessageTypeByName_def m_source_def m_msg_def)
  have b: "pool_FindMessageTypeByName (pool m_enum_source) ''pkg.M'' = None"
    by (simp add: pool_FindMessageTypeByName_def m_enum_source_def)
  have c: "pool_FindEnumTypeByName (pool m_source) ''pkg.M'' = None"
    by (simp add: pool_FindEnumTypeByName_def m_source_def)
  have d: "pool_FindEnumTypeByName (pool m_enum_source) ''pkg.M'' \<noteq> None"
    by (simp add: pool_FindEnumTypeByName_def m_enum_source_def)
  have e: "compare_name 1 m_source m_source ''pkg.M'' root0
     = Inr (Section Root_Section [] [] [Section Message_Comparison ''pkg.M'' ''pkg.M'' [] []] [])"
    by (simp add: compare_name_def a root0_def m_msg_def)
  from cross_kind_name_missing [of m_source "''pkg.M''" m_enum_source 0]
       cross_kind_name_missing [of m_enum_source "''pkg.M''" m_source 0]
       cross_kind_name_missing [of m_source "''pkg.M''" m_source 1
          "Section Root_Section [] [] [Section Message_Comparison ''pkg.M'' ''pkg.M'' [] []] []"]
       a b c d e
  show ?thesis by simp
qed

section \<open>Trimming\<close>

lemma trim_loop_filter: "trim_loop subs = filter (\<lambda>c. \<not> is_empty c) (map trim subs)"
  by (induction subs) (simp_all add: Let_def)

lemma trim_empty_iff:
  "is_empty (trim s) = (\<not> has_item s)"
  "(trim_loop subs = []) = (\<not> has_item_list subs)"
  by (induction s and subs rule: trim_trim_loop.induct) (auto simp: Let_def)

lemma trim_all_items:
  "all_items (trim s) = all_items s"
  "all_items_list (trim_loop subs) = all_items_list subs"
proof (induction s and subs rule: trim_trim_loop.induct)
  case (3 s rest)
  have "is_empty (trim s) \<Longrightarrow> all_items (trim s) = []"
    by (cases "trim s") simp
  with 3 show ?case by (auto simp: Let_def)
qed simp_all

lemma has_item_descendant:
  "c \<in> set (descendants s) \<Longrightarrow> has_item c \<Longrightarrow> has_item s"
  "c \<in> set (descendants_list subs) \<Longrightarrow> has_item c \<Longrightarrow> has_item_list subs"
  by (induction s and subs rule: descendants_descendants_list.induct) auto

lemma trim_keeps_descendants:
  "c \<in> set (descendants s) \<Longrightarrow> has_item c \<Longrightarrow> trim c \<in> set (descendants (trim s))"
  "c \<in> set (descendants_list subs) \<Longrightarrow> has_item c
     \<Longrightarrow> trim c \<in> set (descendants_list (trim_loop subs))"
proof (induction s and subs rule: trim_trim_loop.induct)
  case (1 t a b subs its)
  then show ?case by simp
next
  case 2
  then show ?case by simp
next
  case (3 s rest)
  from "3.prems"(1) consider "c = s" | "c \<in> set (descendants s)" | "c \<in> set (descendants_list rest)"
    by auto
  then show ?case
  proof cases
    case 1
    with "3.prems"(2) show ?thesis by (simp add: Let_def trim_empty_iff del: trim.simps)
  next
    case 2
    from 2 "3.prems"(2) have "has_item s" by (rule has_item_descendant(1))
    with 2 "3.prems"(2) "3.IH"(1) show ?thesis
      by (simp add: Let_def trim_empty_iff del: trim.simps)
  next
    case 3
    with "3.prems"(2) "3.IH" show ?thesis
      by (cases "is_empty (trim s)") (simp_all add: Let_def del: trim.simps)
  qed
qed

lemma trim_descendants_origin:
  "c' \<in> set (descendants (trim s)) \<Longrightarrow> \<exists>c \<in> set (descendants s). has_item c \<and> c' = trim c"
  "c' \<in> set (descendants_list (trim_loop subs))
     \<Longrightarrow> \<exists>c \<in> set (descendants_list subs). has_item c \<and> c' = trim c"
proof (induction s and subs rule: trim_trim_loop.induct)
  case (1 t a b subs its)
  then show ?case by simp
next
  case 2
  then show ?case by simp
next
  case (3 s rest)
  show ?case
  proof (cases "is_empty (trim s)")
    case True
    with "3.prems" "3.IH" show ?thesis by (auto simp: Let_def simp del: trim.simps)
  next
    case False
    then have "has_item s" by (simp add: trim_empty_iff)
    with False "3.prems" "3.IH" show ?thesis
      by (auto simp: Let_def simp del: trim.simps)
  qed
qed

lemma subsections_trim: "subsections (trim s) = trim_loop (subsections s)"
  by (cases s) simp

lemma items_trim: "items (trim s) = items s"
  by (cases s) simp

text \<open>
  Claim C4. After \<open>trim\<close>, the subsections of a section are its former subsections, each
  trimmed first, without those that are then empty. A section is empty after its own
  trimming exactly when it has no item anywhere in its subtree. This holds at every
  depth: every section below the root that has an item somewhere in its subtree is
  still below the root of the trimmed tree (in its trimmed form), and every section
  below the root of the trimmed tree is such a section and is not empty. The items of
  every section are kept, in order. In particular a section whose only subsection has
  no items and no subsections loses it, and is itself empty after trimming when it has
  no items.
\<close>

theorem trim_removes_exactly_the_item_free:
  "subsections (trim s) = filter (\<lambda>c. \<not> is_empty c) (map trim (subsections s))
   \<and> is_empty (trim s) = (\<not> has_item s)
   \<and> (\<forall>c \<in> set (descendants s). has_item c \<longrightarrow> trim c \<in> set (descendants (trim s)))
   \<and> (\<forall>c' \<in> set (descendants (trim s)).
         \<not> is_empty c' \<and> (\<exists>c \<in> set (descendants s). has_item c \<and> c' = trim c))
   \<and> items (trim s) = items s
   \<and> all_items (trim s) = all_items s
   \<and> subsections (trim (Section t a b [Section t' a' b' [] []] its)) = []
   \<and> is_empty (trim (Section t a b [Section t' a' b' [] []] []))"
proof -
  have "\<not> is_empty c' \<and> (\<exists>c \<in> set (descendants s). has_item c \<and> c' = trim c)"
    if "c' \<in> set (descendants (trim s))" for c'
    using trim_descendants_origin(1) [OF that] trim_empty_iff(1) by blast
  then show ?thesis
    by (simp add: subsections_trim items_trim trim_loop_filter trim_empty_iff trim_all_items
          trim_keeps_descendants del: trim.simps)
qed

theorem trim_removes_exactly_the_item_free_witness:
  "trim sample_tree
     = Section Root_Section [] []
         [Section Enum_Comparison ''E'' ''E''
            [Section Enum_Value_Comparison ''A'' ''A'' [] [Item Enum_Value_Id_Changed ''1'' ''2'']]
            []]
         []
   \<and> Section Enum_Value_Comparison ''A'' ''A'' [] [Item Enum_Value_Id_Changed ''1'' ''2'']
        \<in> set (descendants sample_tree)
   \<and> has_item (Section Enum_Value_Comparison ''A'' ''A'' [] [Item Enum_Value_Id_Changed ''1'' ''2''])
   \<and> trim (Section Enum_Value_Comparison ''A'' ''A'' [] [Item Enum_Value_Id_Changed ''1'' ''2''])
        \<in> set (descendants (trim sample_tree))
   \<and> descendants (trim sample_tree)
       = [Section Enum_Comparison ''E'' ''E''
            [Section Enum_Value_Comparison ''A'' ''A'' [] [Item Enum_Value_Id_Changed ''1'' ''2'']]
            [],
          Section Enum_Value_Comparison ''A'' ''A'' [] [Item Enum_Value_Id_Changed ''1'' ''2'']]
   \<and> is_empty (trim (Section Message_Comparison ''Q'' ''Q''
          [Section Message_Field_Comparison ''Q.x'' ''Q.x'' [] []] []))"
  using trim_removes_exactly_the_item_free [of sample_tree]
  by (simp add: sample_tree_def)

section \<open>Rendering\<close>

lemma unlines_append: "unlines (xs @ ys) = unlines xs @ unlines ys"
  by (simp add: unlines_def)

lemma unlines_Cons: "unlines (x # xs) = x @ endl @ unlines xs"
  by (simp add: unlines_def)

lemma unlines_Nil: "unlines [] = []"
  by (simp add: unlines_def)

lemma print_items_eq:
  "print_items subprefix its cout
     = cout @ unlines (map (\<lambda>item. subprefix @ ''* '' @ item_message item) its)"
  by (induction its arbitrary: cout) (simp_all add: unlines_Cons unlines_Nil)

lemma indent_alt: "replicate (level * 2) CHR '' '' = indent level"
  by (simp add: indent_def mult.commute)

lemma indent_Suc: "indent (Suc level) = ''  '' @ indent level"
  by (simp add: indent_def)

lemma print_eq_spec_render:
  "print level s cout = cout @ unlines (spec_render level s)"
  "print_subsections level subs cout = cout @ unlines (spec_render_list level subs)"
proof (induction level s cout and level subs cout rule: print_print_subsections.induct)
  case (1 level t a b subs its cout)
  have IH: "print_subsections (level + 1) subs
              (print_items (replicate ((level + 1) * 2) CHR '' '') its
                 (cout @ replicate (level * 2) CHR '' '' @ message (Section t a b subs its) @ endl))
            = print_items (replicate ((level + 1) * 2) CHR '' '') its
                 (cout @ replicate (level * 2) CHR '' '' @ message (Section t a b subs its) @ endl)
              @ unlines (spec_render_list (level + 1) subs)"
    by (rule "1.IH" [OF refl refl refl refl])
  have "print level (Section t a b subs its) cout
          = print_subsections (level + 1) subs
              (print_items (replicate ((level + 1) * 2) CHR '' '') its
                 (cout @ replicate (level * 2) CHR '' '' @ message (Section t a b subs its) @ endl))"
    by (simp add: Let_def del: message.simps)
  also note IH
  finally show ?case
    by (simp add: print_items_eq indent_alt indent_Suc unlines_append unlines_Cons
          del: message.simps)
next
  case (2 level cout)
  show ?case by (simp add: unlines_Nil)
next
  case (3 level sub rest cout)
  then show ?case by (simp add: unlines_append)
qed

lemma spec_render_deeper:
  "spec_render (Suc level) s = map (\<lambda>l. ''  '' @ l) (spec_render level s)"
  "spec_render_list (Suc level) subs = map (\<lambda>l. ''  '' @ l) (spec_render_list level subs)"
  by (induction level s and level subs rule: spec_render_spec_render_list.induct)
     (simp_all add: indent_Suc del: message.simps)

lemma spec_render_list_concat:
  "spec_render_list level subs = concat (map (spec_render level) subs)"
  by (induction subs) simp_all

lemma message_single_line:
  "CHR 0x0A \<notin> set (sec_a s) \<Longrightarrow> CHR 0x0A \<notin> set (sec_b s) \<Longrightarrow> CHR 0x0A \<notin> set (message s)"
  by (cases s; cases "sec_type s") auto

lemma item_message_single_line:
  "CHR 0x0A \<notin> set (item_a i) \<Longrightarrow> CHR 0x0A \<notin> set (item_b i)
     \<Longrightarrow> CHR 0x0A \<notin> set (item_message i)"
  by (cases i; cases "item_type i") auto

text \<open>
  Claim C9. What \<open>print\<close> appends to \<open>cout\<close> is the text of the lines of the pre-order
  dump: the section's own line at the indentation of its level, then one bullet line
  per item, then the dumps of the subsections in order, each at the next level. Going
  one level deeper puts two more spaces in front of every line of a dump. The section's
  own text and the text of an item hold no line feed when the two names, or the two
  strings of the item, hold none.
\<close>

theorem print_is_preorder_dump:
  "print level s cout = cout @ unlines (spec_render level s)
   \<and> spec_render level s
       = (indent level @ message s)
         # map (\<lambda>item. indent (Suc level) @ ''* '' @ item_message item) (items s)
         @ concat (map (spec_render (Suc level)) (subsections s))
   \<and> spec_render (Suc level) s = map (\<lambda>l. ''  '' @ l) (spec_render level s)
   \<and> (CHR 0x0A \<notin> set (sec_a s) \<union> set (sec_b s) \<longrightarrow> CHR 0x0A \<notin> set (message s))
   \<and> (\<forall>i \<in> set (items s). CHR 0x0A \<notin> set (item_a i) \<union> set (item_b i)
          \<longrightarrow> CHR 0x0A \<notin> set (item_message i))"
proof -
  have "spec_render level s
       = (indent level @ message s)
         # map (\<lambda>item. indent (Suc level) @ ''* '' @ item_message item) (items s)
         @ concat (map (spec_render (Suc level)) (subsections s))"
    by (cases s) (simp add: spec_render_list_concat del: message.simps)
  then show ?thesis
    using print_eq_spec_render(1) spec_render_deeper(1) message_single_line
      item_message_single_line
    by (simp del: item_message.simps)
qed

theorem print_is_preorder_dump_witness:
  "print 0 (Section Enum_Comparison ''E'' ''F'' [Section Enum_Value_Comparison ''A'' ''A'' [] []]
              [Item Enum_Value_Removed ''B'' []]) []
     = ''Comparing enums: E -> F'' @ endl
       @ ''  * Value removed: B -> '' @ endl
       @ ''  Comparing enum values: A -> A'' @ endl
   \<and> CHR 0x0A \<notin> set ''E'' \<union> set ''F''
   \<and> CHR 0x0A \<notin> set ''Comparing enums: E -> F''
   \<and> CHR 0x0A \<notin> set ''Value removed: B -> ''"
  using print_is_preorder_dump [of 0
      "Section Enum_Comparison ''E'' ''F'' [Section Enum_Value_Comparison ''A'' ''A'' [] []]
              [Item Enum_Value_Removed ''B'' []]" "[]"]
  by (simp add: unlines_def indent_def)

section \<open>Enum comparison\<close>

lemma enum_loop1_eq:
  "enum_loop1 enum2 vs (Section t a b subs its)
     = Section t a b
         (subs @ map (\<lambda>v. value_subsection v (the (FindValueByName enum2 (ev_name v))))
                   (filter (\<lambda>v. FindValueByName enum2 (ev_name v) \<noteq> None) vs))
         (its @ map (\<lambda>v. Item Enum_Value_Removed (ev_name v) [])
                  (filter (\<lambda>v. FindValueByName enum2 (ev_name v) = None) vs))"
  by (induction vs arbitrary: subs its) (auto split: option.splits)

lemma enum_loop2_eq:
  "enum_loop2 enum1 vs (Section t a b subs its)
     = Section t a b subs
         (its @ map (\<lambda>v. Item Enum_Value_Added [] (ev_name v))
                  (filter (\<lambda>v. FindValueByName enum1 (ev_name v) = None) vs))"
  by (induction vs arbitrary: its) (auto split: option.splits)

lemma compare_enum_eq:
  "compare_enum enum1 enum2
     = Section Enum_Comparison (enum_full_name enum1) (enum_full_name enum2)
         (map (\<lambda>v. value_subsection v (the (FindValueByName enum2 (ev_name v))))
            (filter (\<lambda>v. FindValueByName enum2 (ev_name v) \<noteq> None) (enum_values enum1)))
         (map (\<lambda>v. Item Enum_Value_Removed (ev_name v) [])
            (filter (\<lambda>v. FindValueByName enum2 (ev_name v) = None) (enum_values enum1))
          @ map (\<lambda>v. Item Enum_Value_Added [] (ev_name v))
              (filter (\<lambda>v. FindValueByName enum1 (ev_name v) = None) (enum_values enum2)))"
  by (simp add: compare_enum_def enum_loop1_eq enum_loop2_eq)

lemma find_distinct_key:
  "distinct (map f xs) \<Longrightarrow> x \<in> set xs \<Longrightarrow> find (\<lambda>y. f y = f x) xs = Some x"
  by (induction xs) (auto simp: rev_image_eqI)

lemma find_absent_key: "k \<notin> f ` set xs \<Longrightarrow> find (\<lambda>y. f y = k) xs = None"
  by (auto simp: find_None_iff)

text \<open>
  Claim C5. Two enums whose value lists agree except at one position, where the first
  has a value named \<open>A\<close> and the second a value named \<open>B\<close>, the other names being unique
  and different from both. The comparison returns the enum section with one subsection
  without items for each of the other values and exactly two items:
  \<open>Enum_Value_Removed\<close> with \<open>A\<close> before and nothing after, then \<open>Enum_Value_Added\<close> with
  nothing before and \<open>B\<close> after. The numbers \<open>i\<close> and \<open>j\<close> of the two values play no part:
  the result is this one when they are equal (the rename) and when they are not, since
  values are matched by name.
\<close>

theorem enum_rename_is_remove_and_add:
  fixes A B :: string and i j :: "32 word"
  assumes a: "enum_values enum_a = pre @ [\<lparr>ev_name = A, ev_number = i\<rparr>] @ post"
    and b: "enum_values enum_b = pre @ [\<lparr>ev_name = B, ev_number = j\<rparr>] @ post"
    and d: "distinct (map ev_name (pre @ post))"
    and A: "A \<notin> ev_name ` set (pre @ post)"
    and B: "B \<notin> ev_name ` set (pre @ post)"
    and AB: "A \<noteq> B"
  shows "compare_enum enum_a enum_b
           = Section Enum_Comparison (enum_full_name enum_a) (enum_full_name enum_b)
               (map (\<lambda>v. Section Enum_Value_Comparison (ev_name v) (ev_name v) [] []) (pre @ post))
               [Item Enum_Value_Removed A [], Item Enum_Value_Added [] B]"
proof -
  let ?va = "\<lparr>ev_name = A, ev_number = i\<rparr>" and ?vb = "\<lparr>ev_name = B, ev_number = j\<rparr>"
  have da: "distinct (map ev_name (enum_values enum_a))"
    and db: "distinct (map ev_name (enum_values enum_b))"
    using a b d A B by auto
  have in_b: "FindValueByName enum_b (ev_name v) = Some v" if "v \<in> set (pre @ post)" for v
    unfolding FindValueByName_def using that b by (intro find_distinct_key [OF db]) auto
  have in_a: "FindValueByName enum_a (ev_name v) = Some v" if "v \<in> set (pre @ post)" for v
    unfolding FindValueByName_def using that a by (intro find_distinct_key [OF da]) auto
  have A_b: "FindValueByName enum_b A = None"
    unfolding FindValueByName_def using b A AB by (intro find_absent_key) auto
  have B_a: "FindValueByName enum_a B = None"
    unfolding FindValueByName_def using a B AB by (intro find_absent_key) auto
  have f1: "filter (\<lambda>v. FindValueByName enum_b (ev_name v) \<noteq> None) (enum_values enum_a) = pre @ post"
    using in_b A_b by (simp add: a filter_id_conv)
  have f2: "filter (\<lambda>v. FindValueByName enum_b (ev_name v) = None) (enum_values enum_a) = [?va]"
    using in_b A_b by (simp add: a filter_empty_conv)
  have f3: "filter (\<lambda>v. FindValueByName enum_a (ev_name v) = None) (enum_values enum_b) = [?vb]"
    using in_a B_a by (simp add: b filter_empty_conv)
  have m: "map (\<lambda>v. value_subsection v (the (FindValueByName enum_b (ev_name v)))) (pre @ post)
             = map (\<lambda>v. Section Enum_Value_Comparison (ev_name v) (ev_name v) [] []) (pre @ post)"
    by (rule map_cong [OF refl]) (simp add: in_b value_subsection_def)
  show ?thesis
    by (simp only: compare_enum_eq f1 f2 f3 m) simp
qed

theorem enum_rename_is_remove_and_add_witness:
  "compare_enum enum_E_A enum_E_B
     = Section Enum_Comparison ''E'' ''E'' []
         [Item Enum_Value_Removed ''A'' [], Item Enum_Value_Added [] ''B'']"
  using enum_rename_is_remove_and_add [of enum_E_A "[]" "''A''" 1 "[]" enum_E_B "''B''" 1]
  by (simp add: enum_E_A_def enum_E_B_def)

section \<open>Whole files\<close>

text \<open>
  Claim C6 at a file without types and a file whose only type is the message \<open>pkg.M\<close>.
  Comparing the first with the second reports one \<open>File_Message_Added\<close> item whose
  \<open>after\<close> is \<open>pkg.M\<close> and whose \<open>before\<close> is a single space, not the empty string.
  Comparing the second with the first reports one \<open>File_Message_Removed\<close> item whose
  \<open>before\<close> is \<open>pkg.M\<close> and whose \<open>after\<close> is empty.
\<close>

theorem message_added_before_is_a_space:
  "compare_sources 0 empty_source m_source root0
     = Inr (Section Root_Section [] [] [] [Item File_Message_Added '' '' ''pkg.M''])
   \<and> compare_sources 0 m_source empty_source root0
     = Inr (Section Root_Section [] [] [] [Item File_Message_Removed ''pkg.M'' []])"
  by (simp add: compare_sources_def empty_source_def m_source_def m_msg_def root0_def
        FindMessageTypeByName_def)

section \<open>The stack budget\<close>

text \<open>
  A comparison that returns within a stack budget returns the same section within any
  larger budget, and a null dereference met within a budget is met within any larger
  one: whatever is not a stack exhaustion does not depend on the budget.
\<close>

lemma compare_field_message:
  "field_type field1 = TYPE_MESSAGE \<Longrightarrow> field_type field2 = TYPE_MESSAGE \<Longrightarrow>
   compare_field n P1 P2 field1 field2 =
     (case message_type P1 field1 of
        None \<Rightarrow> Inl Null_Dereference
      | Some msg1 \<Rightarrow>
          (case message_type P2 field2 of
             None \<Rightarrow> Inl Null_Dereference
           | Some msg2 \<Rightarrow>
               (case compare_msg n P1 P2 msg1 msg2 of
                  Inl e \<Rightarrow> Inl e
                | Inr s \<Rightarrow>
                    Inr (field_tail field1 field2
                           (push_back
                              (if msg_full_name msg1 \<noteq> msg_full_name msg2
                               then add_item (field_head field1 field2) Message_Field_Type_Changed
                                      (msg_full_name msg1) (msg_full_name msg2)
                               else field_head field1 field2) s)))))"
  by (simp add: compare_field.simps Let_def del: compare_msg.simps split: option.splits)

lemma compare_field_other:
  "\<not> (field_type field1 = TYPE_MESSAGE \<and> field_type field2 = TYPE_MESSAGE) \<Longrightarrow>
   compare_field n P1 P2 field1 field2 = compare_field 0 P1 P2 field1 field2"
  by (auto simp: compare_field.simps Let_def simp del: compare_msg.simps split: option.splits)

lemma fuel_step:
  "compare_msg n P1 P2 desc1 desc2 \<noteq> Inl Stack_Exhausted
     \<Longrightarrow> compare_msg (Suc n) P1 P2 desc1 desc2 = compare_msg n P1 P2 desc1 desc2"
  "msg_loop1 n P1 P2 desc2 fs sec \<noteq> Inl Stack_Exhausted
     \<Longrightarrow> msg_loop1 (Suc n) P1 P2 desc2 fs sec = msg_loop1 n P1 P2 desc2 fs sec"
  "compare_field n P1 P2 field1 field2 \<noteq> Inl Stack_Exhausted
     \<Longrightarrow> compare_field (Suc n) P1 P2 field1 field2 = compare_field n P1 P2 field1 field2"
proof (induction n P1 P2 desc1 desc2 and n P1 P2 desc2 fs sec and n P1 P2 field1 field2
       rule: compare_msg_msg_loop1_compare_field.induct)
  case (1 P1 P2 desc1 desc2)
  then show ?case by simp
next
  case (2 n P1 P2 desc1 desc2)
  then show ?case by (auto split: sum.splits)
next
  case (3 n P1 P2 desc2 sec)
  then show ?case by simp
next
  case (4 n P1 P2 desc2 field1 rest sec)
  then show ?case by (auto split: sum.splits option.splits)
next
  case (5 n P1 P2 field1 field2)
  show ?case
  proof (cases "field_type field1 = TYPE_MESSAGE \<and> field_type field2 = TYPE_MESSAGE")
    case False
    then show ?thesis
      using compare_field_other [of field1 field2 "Suc n" P1 P2]
        compare_field_other [of field1 field2 n P1 P2] by simp
  next
    case True
    show ?thesis
    proof (cases "message_type P1 field1")
      case None
      with True show ?thesis by (simp add: compare_field_message)
    next
      case m1: (Some msg1)
      show ?thesis
      proof (cases "message_type P2 field2")
        case None
        with True m1 show ?thesis by (simp add: compare_field_message)
      next
        case m2: (Some msg2)
        have "compare_msg n P1 P2 msg1 msg2 \<noteq> Inl Stack_Exhausted"
          using "5.prems" True m1 m2 by (auto simp: compare_field_message)
        with "5.IH" [OF refl _ _ _ m1 m2 refl] True
        have "compare_msg (Suc n) P1 P2 msg1 msg2 = compare_msg n P1 P2 msg1 msg2"
          by simp
        with True m1 m2 show ?thesis by (simp add: compare_field_message)
      qed
    qed
  qed
qed

lemma fuel_mono:
  assumes "n \<le> m" and "compare_msg n P1 P2 desc1 desc2 \<noteq> Inl Stack_Exhausted"
  shows "compare_msg m P1 P2 desc1 desc2 = compare_msg n P1 P2 desc1 desc2"
  using assms by (induction m rule: dec_induct) (simp_all add: fuel_step(1) del: compare_msg.simps)

lemma file_msg_loop1_mono:
  assumes "n \<le> m"
  shows "file_msg_loop1 n P1 P2 file2 msgs root \<noteq> Inl Stack_Exhausted
           \<Longrightarrow> file_msg_loop1 m P1 P2 file2 msgs root = file_msg_loop1 n P1 P2 file2 msgs root"
proof (induction msgs arbitrary: root)
  case Nil
  show ?case by simp
next
  case (Cons msg1 rest)
  show ?case
  proof (cases "FindMessageTypeByName file2 (msg_name msg1)")
    case None
    with Cons show ?thesis by simp
  next
    case (Some msg2)
    with Cons.prems have ne: "compare_msg n P1 P2 msg1 msg2 \<noteq> Inl Stack_Exhausted"
      by (auto simp del: compare_msg.simps)
    have eq: "compare_msg m P1 P2 msg1 msg2 = compare_msg n P1 P2 msg1 msg2"
      by (rule fuel_mono [OF assms ne])
    show ?thesis
    proof (cases "compare_msg n P1 P2 msg1 msg2")
      case (Inl e)
      with Some eq show ?thesis by (simp del: compare_msg.simps)
    next
      case (Inr s)
      with Some eq Cons.prems Cons.IH [of "push_back root s"] show ?thesis
        by (simp del: compare_msg.simps)
    qed
  qed
qed

lemma compare_sources_mono:
  assumes "n \<le> m" and "compare_sources n source1 source2 root \<noteq> Inl Stack_Exhausted"
  shows "compare_sources m source1 source2 root = compare_sources n source1 source2 root"
proof -
  let ?loop = "\<lambda>k. file_msg_loop1 k (pool source1) (pool source2) (file_descriptor source2)
                      (message_types (file_descriptor source1)) root"
  from assms(2) have "?loop n \<noteq> Inl Stack_Exhausted"
    by (auto simp: compare_sources_def Let_def)
  then have "?loop m = ?loop n" by (rule file_msg_loop1_mono [OF assms(1)])
  then show ?thesis by (simp add: compare_sources_def Let_def)
qed

lemma compare_name_mono:
  assumes "n \<le> m" and "compare_name n source1 source2 name root \<noteq> Inl Stack_Exhausted"
  shows "compare_name m source1 source2 name root = compare_name n source1 source2 name root"
proof (cases "pool_FindMessageTypeByName (pool source1) name")
  case None
  then show ?thesis by (simp add: compare_name_def)
next
  case d1: (Some d1)
  show ?thesis
  proof (cases "pool_FindMessageTypeByName (pool source2) name")
    case None
    with d1 show ?thesis by (simp add: compare_name_def)
  next
    case d2: (Some d2)
    from assms(2) d1 d2
    have "compare_msg n (pool source1) (pool source2) d1 d2 \<noteq> Inl Stack_Exhausted"
      by (auto simp: compare_name_def simp del: compare_msg.simps)
    then have "compare_msg m (pool source1) (pool source2) d1 d2
                 = compare_msg n (pool source1) (pool source2) d1 d2"
      by (rule fuel_mono [OF assms(1)])
    with d1 d2 show ?thesis by (simp add: compare_name_def del: compare_msg.simps)
  qed
qed

lemma main_mono:
  assumes "n \<le> m" and "main n source1 source2 name \<noteq> Inl Stack_Exhausted"
  shows "main m source1 source2 name = main n source1 source2 name"
proof -
  from assms(2) have "run_comparison n source1 source2 name \<noteq> Inl Stack_Exhausted"
    by (auto simp: main_def)
  then have "run_comparison m source1 source2 name = run_comparison n source1 source2 name"
    using assms(1) by (auto simp: run_comparison_def compare_sources_mono compare_name_mono)
  then show ?thesis by (simp add: main_def)
qed


section \<open>Comparing a schema with itself\<close>

lemma has_item_push_back [simp]: "has_item (push_back sec s) = (has_item sec \<or> has_item s)"
proof -
  have "has_item_list (subs @ [s]) = (has_item_list subs \<or> has_item s)" for subs
    by (induction subs) auto
  then show ?thesis by (cases sec) auto
qed

lemma has_item_list_value_sections:
  "\<not> has_item_list (map (\<lambda>v. Section Enum_Value_Comparison (ev_name v) (ev_name v) [] []) vs)"
  by (induction vs) auto

lemma compare_enum_self:
  assumes "valid_enum e"
  shows "compare_enum e e
           = Section Enum_Comparison (enum_full_name e) (enum_full_name e)
               (map (\<lambda>v. Section Enum_Value_Comparison (ev_name v) (ev_name v) [] [])
                  (enum_values e)) []"
proof -
  have found: "FindValueByName e (ev_name v) = Some v" if "v \<in> set (enum_values e)" for v
    unfolding FindValueByName_def
    using assms that by (intro find_distinct_key) (auto simp: valid_enum_def)
  have f1: "filter (\<lambda>v. FindValueByName e (ev_name v) \<noteq> None) (enum_values e) = enum_values e"
    using found by (simp add: filter_id_conv)
  have f2: "filter (\<lambda>v. FindValueByName e (ev_name v) = None) (enum_values e) = []"
    using found by (simp add: filter_empty_conv)
  have m: "map (\<lambda>v. value_subsection v (the (FindValueByName e (ev_name v)))) (enum_values e)
             = map (\<lambda>v. Section Enum_Value_Comparison (ev_name v) (ev_name v) [] []) (enum_values e)"
    by (rule map_cong [OF refl]) (simp add: found value_subsection_def)
  show ?thesis by (simp only: compare_enum_eq f1 f2 m) simp
qed

lemma compare_enum_self_quiet: "valid_enum e \<Longrightarrow> \<not> has_item (compare_enum e e)"
  by (simp add: compare_enum_self has_item_list_value_sections)

lemma field_head_self:
  "field_head f f = Section Message_Field_Comparison (field_full_name f) (field_full_name f) [] []"
  by (simp add: field_head_def)

lemma compare_default_value_self:
  assumes "valid_field P f" and "nan_free f"
  shows "compare_default_value f f"
  using assms
  by (cases "cpp_type f")
     (auto simp: compare_default_value_def valid_field_def nan_free_def float_eq_self
        double_eq_self)

lemma field_tail_self: "valid_field P f \<Longrightarrow> nan_free f \<Longrightarrow> field_tail f f sec = sec"
  by (simp add: field_tail_def compare_default_value_self)

lemma pool_enum_member:
  "enum_type P f = Some e \<Longrightarrow> e \<in> set (pool_enums P)"
  by (auto simp: enum_type_def pool_FindEnumTypeByName_def find_Some_iff)

lemma pool_message_member:
  "message_type P f = Some d \<Longrightarrow> d \<in> set (pool_messages P)"
  by (auto simp: message_type_def pool_FindMessageTypeByName_def find_Some_iff)

lemma compare_field_self:
  assumes vf: "valid_field P f" and nf: "nan_free f"
    and en: "\<And>e. field_type f = TYPE_ENUM \<Longrightarrow> enum_type P f = Some e \<Longrightarrow> valid_enum e"
    and ms: "\<And>d. field_type f = TYPE_MESSAGE \<Longrightarrow> message_type P f = Some d
               \<Longrightarrow> \<exists>s. compare_msg n P P d d = Inr s \<and> \<not> has_item s"
  shows "\<exists>s. compare_field n P P f f = Inr s \<and> \<not> has_item s"
proof (cases "field_type f = TYPE_MESSAGE")
  case True
  with vf obtain d where d: "message_type P f = Some d"
    by (auto simp: valid_field_def)
  from ms [OF True d] obtain s where s: "compare_msg n P P d d = Inr s" "\<not> has_item s"
    by blast
  from True d s show ?thesis
    by (simp add: compare_field_message field_tail_self [OF vf nf] field_head_self
          del: compare_msg.simps)
next
  case False
  note nm = this
  show ?thesis
  proof (cases "field_type f = TYPE_ENUM")
    case True
    with vf obtain e where e: "enum_type P f = Some e"
      by (auto simp: valid_field_def)
    from en [OF True e] have "\<not> has_item (compare_enum e e)"
      by (rule compare_enum_self_quiet)
    with True e show ?thesis
      by (simp add: compare_field.simps field_tail_self [OF vf nf] field_head_self)
  next
    case False
    with nm show ?thesis
      by (simp add: compare_field.simps field_tail_self [OF vf nf] field_head_self)
  qed
qed

lemma msg_loop1_self:
  assumes "\<And>f. f \<in> set fs \<Longrightarrow> FindFieldByName d (field_name f) = Some f"
    and "\<And>f. f \<in> set fs \<Longrightarrow> \<exists>s. compare_field n P P f f = Inr s \<and> \<not> has_item s"
    and "\<not> has_item sec"
  shows "\<exists>sec'. msg_loop1 n P P d fs sec = Inr sec' \<and> \<not> has_item sec'"
  using assms
proof (induction fs arbitrary: sec)
  case Nil
  then show ?case by simp
next
  case (Cons f rest)
  from Cons.prems(2) [of f] obtain s where s: "compare_field n P P f f = Inr s" "\<not> has_item s"
    by auto
  have "\<exists>sec'. msg_loop1 n P P d rest (push_back sec s) = Inr sec' \<and> \<not> has_item sec'"
    using Cons.prems s by (intro Cons.IH) auto
  with Cons.prems(1) [of f] s show ?case by simp
qed

lemma msg_loop2_self:
  "\<forall>f \<in> set fs. FindFieldByName d (field_name f) \<noteq> None \<Longrightarrow> msg_loop2 d fs sec = sec"
  by (induction fs arbitrary: sec) (auto split: option.splits)

lemma nesting_within_Suc:
  "nesting_within (Suc n) P d \<Longrightarrow> f \<in> set (msg_fields d) \<Longrightarrow> field_type f = TYPE_MESSAGE
     \<Longrightarrow> message_type P f = Some d' \<Longrightarrow> nesting_within n P d'"
  by (auto simp: list_all_iff split: option.splits)

lemma compare_msg_self:
  assumes vp: "valid_pool P" and np: "nan_free_pool P"
  shows "d \<in> set (pool_messages P) \<Longrightarrow> nesting_within n P d
           \<Longrightarrow> \<exists>s. compare_msg n P P d d = Inr s \<and> \<not> has_item s"
proof (induction n arbitrary: d)
  case 0
  then show ?case by simp
next
  case (Suc n)
  from vp Suc.prems(1) have vd: "valid_msg P d"
    by (auto simp: valid_pool_def list_all_iff)
  from np Suc.prems(1) have nd: "\<And>f. f \<in> set (msg_fields d) \<Longrightarrow> nan_free f"
    by (auto simp: nan_free_pool_def list_all_iff)
  have found: "FindFieldByName d (field_name f) = Some f" if "f \<in> set (msg_fields d)" for f
    unfolding FindFieldByName_def
    using vd that by (intro find_distinct_key) (auto simp: valid_msg_def)
  have fields: "\<exists>s. compare_field n P P f f = Inr s \<and> \<not> has_item s"
    if f: "f \<in> set (msg_fields d)" for f
  proof (rule compare_field_self)
    show "valid_field P f" using vd f by (auto simp: valid_msg_def list_all_iff)
    show "nan_free f" using nd f .
    show "valid_enum e" if "enum_type P f = Some e" for e
      using vp pool_enum_member [OF that] by (auto simp: valid_pool_def list_all_iff)
    show "\<exists>s. compare_msg n P P d' d' = Inr s \<and> \<not> has_item s"
      if "field_type f = TYPE_MESSAGE" "message_type P f = Some d'" for d'
      using Suc.IH [OF pool_message_member [OF that(2)]]
        nesting_within_Suc [OF Suc.prems(2) f that] by blast
  qed
  have "\<exists>sec'. msg_loop1 n P P d (msg_fields d)
                 (Section Message_Comparison (msg_full_name d) (msg_full_name d) [] []) = Inr sec'
              \<and> \<not> has_item sec'"
    using found fields by (intro msg_loop1_self) auto
  then obtain sec' where sec':
    "msg_loop1 n P P d (msg_fields d)
       (Section Message_Comparison (msg_full_name d) (msg_full_name d) [] []) = Inr sec'"
    "\<not> has_item sec'" by blast
  have "msg_loop2 d (msg_fields d) sec' = sec'"
    using found by (intro msg_loop2_self) simp
  with sec' show ?case by simp
qed


lemma file_msg_loop1_self:
  assumes "\<And>m. m \<in> set msgs \<Longrightarrow> FindMessageTypeByName file (msg_name m) = Some m"
    and "\<And>m. m \<in> set msgs \<Longrightarrow> \<exists>s. compare_msg n P P m m = Inr s \<and> \<not> has_item s"
    and "\<not> has_item root"
  shows "\<exists>root'. file_msg_loop1 n P P file msgs root = Inr root' \<and> \<not> has_item root'"
  using assms
proof (induction msgs arbitrary: root)
  case Nil
  then show ?case by simp
next
  case (Cons m rest)
  from Cons.prems(2) [of m] obtain s where s: "compare_msg n P P m m = Inr s" "\<not> has_item s"
    by auto
  have "\<exists>root'. file_msg_loop1 n P P file rest (push_back root s) = Inr root' \<and> \<not> has_item root'"
    using Cons.prems s by (intro Cons.IH) auto
  with Cons.prems(1) [of m] s show ?case by (simp del: compare_msg.simps)
qed

lemma file_msg_loop2_self:
  "\<forall>m \<in> set msgs. FindMessageTypeByName file (msg_name m) \<noteq> None
     \<Longrightarrow> file_msg_loop2 file msgs root = root"
  by (induction msgs arbitrary: root) (auto split: option.splits)

lemma file_enum_loop1_self:
  "\<forall>e \<in> set es. FindEnumTypeByName file (enum_name e) = Some e \<and> valid_enum e
     \<Longrightarrow> \<not> has_item root \<Longrightarrow> \<not> has_item (file_enum_loop1 file es root)"
  by (induction es arbitrary: root) (auto simp: compare_enum_self_quiet)

lemma file_enum_loop2_self:
  "\<forall>e \<in> set es. FindEnumTypeByName file (enum_name e) \<noteq> None
     \<Longrightarrow> file_enum_loop2 file es root = root"
  by (induction es arbitrary: root) (auto split: option.splits)

lemma head_add_item [simp]:
  "sec_type (add_item sec ty x y) = sec_type sec"
  "sec_a (add_item sec ty x y) = sec_a sec"
  "sec_b (add_item sec ty x y) = sec_b sec"
  by (cases sec; simp)+

lemma head_push_back [simp]:
  "sec_type (push_back sec s) = sec_type sec"
  "sec_a (push_back sec s) = sec_a sec"
  "sec_b (push_back sec s) = sec_b sec"
  by (cases sec; simp)+

lemma file_msg_loop1_head:
  "file_msg_loop1 n P1 P2 file msgs root = Inr r
     \<Longrightarrow> sec_type r = sec_type root \<and> sec_a r = sec_a root \<and> sec_b r = sec_b root"
  by (induction msgs arbitrary: root)
     (auto split: option.splits sum.splits simp del: compare_msg.simps)

lemma file_enum_loop1_head:
  "sec_type (file_enum_loop1 file es root) = sec_type root
   \<and> sec_a (file_enum_loop1 file es root) = sec_a root
   \<and> sec_b (file_enum_loop1 file es root) = sec_b root"
  by (induction es arbitrary: root) (auto split: option.splits)

lemma trim_quiet:
  "\<not> has_item r \<Longrightarrow> trim r = Section (sec_type r) (sec_a r) (sec_b r) [] []"
  using trim_empty_iff(1) [of r] by (cases r) auto

text \<open>
  Claim C3, as the code has it. Let \<open>S\<close> be a source as the importer builds it, in which
  no \<open>float\<close> or \<open>double\<close> field has a NaN as its default value and in which every
  top-level message type nests message-typed fields to a depth below \<open>n\<close>. Then the
  comparison of \<open>S\<close> with itself returns within the stack budget \<open>n\<close>, and trimming its
  result leaves the bare root: no items and no subsections.
\<close>

theorem self_comparison_trims_to_empty:
  assumes vs: "valid_source S" and np: "nan_free_pool (pool S)"
    and nest: "list_all (nesting_within n (pool S)) (message_types (file_descriptor S))"
  shows "\<exists>r. compare_sources n S S root0 = Inr r \<and> trim r = root0
              \<and> items (trim r) = [] \<and> subsections (trim r) = []"
proof -
  let ?file = "file_descriptor S" and ?P = "pool S"
  from vs have vp: "valid_pool ?P"
    and dm: "distinct (map msg_name (message_types ?file))"
    and de: "distinct (map enum_name (enum_types ?file))"
    and pm: "\<And>m. m \<in> set (message_types ?file) \<Longrightarrow> m \<in> set (pool_messages ?P)"
    and pe: "\<And>e. e \<in> set (enum_types ?file) \<Longrightarrow> e \<in> set (pool_enums ?P)"
    by (auto simp: valid_source_def list_all_iff)
  have fm: "FindMessageTypeByName ?file (msg_name m) = Some m"
    if "m \<in> set (message_types ?file)" for m
    unfolding FindMessageTypeByName_def using dm that by (intro find_distinct_key) auto
  have fe: "FindEnumTypeByName ?file (enum_name e) = Some e"
    if "e \<in> set (enum_types ?file)" for e
    unfolding FindEnumTypeByName_def using de that by (intro find_distinct_key) auto
  have ve: "valid_enum e" if "e \<in> set (enum_types ?file)" for e
    using vp pe [OF that] by (auto simp: valid_pool_def list_all_iff)
  have cm: "\<exists>s. compare_msg n ?P ?P m m = Inr s \<and> \<not> has_item s"
    if "m \<in> set (message_types ?file)" for m
    using compare_msg_self [OF vp np pm [OF that]] nest that by (auto simp: list_all_iff)
  have "\<exists>r1. file_msg_loop1 n ?P ?P ?file (message_types ?file) root0 = Inr r1 \<and> \<not> has_item r1"
    using fm cm by (intro file_msg_loop1_self) (auto simp: root0_def)
  then obtain r1 where r1:
    "file_msg_loop1 n ?P ?P ?file (message_types ?file) root0 = Inr r1" "\<not> has_item r1"
    by blast
  have r2: "file_msg_loop2 ?file (message_types ?file) r1 = r1"
    using fm by (intro file_msg_loop2_self) simp
  let ?r3 = "file_enum_loop1 ?file (enum_types ?file) r1"
  have r3: "\<not> has_item ?r3"
    using fe ve r1(2) by (intro file_enum_loop1_self) auto
  have r4: "file_enum_loop2 ?file (enum_types ?file) ?r3 = ?r3"
    using fe by (intro file_enum_loop2_self) simp
  have res: "compare_sources n S S root0 = Inr ?r3"
    by (simp add: compare_sources_def Let_def r1 r2 r4)
  have "sec_type ?r3 = Root_Section \<and> sec_a ?r3 = [] \<and> sec_b ?r3 = []"
    using file_msg_loop1_head [OF r1(1)] file_enum_loop1_head [of ?file "enum_types ?file" r1]
    by (simp add: root0_def)
  with trim_quiet [OF r3] have "trim ?r3 = root0" by (simp add: root0_def)
  with res show ?thesis by (simp add: root0_def)
qed

theorem self_comparison_trims_to_empty_witness:
  "valid_source shop_source \<and> nan_free_pool (pool shop_source)
   \<and> list_all (nesting_within 2 (pool shop_source)) (message_types (file_descriptor shop_source))
   \<and> (\<exists>r. compare_sources 2 shop_source shop_source root0 = Inr r \<and> trim r = root0
           \<and> items (trim r) = [] \<and> subsections (trim r) = [])"
proof -
  have a: "valid_source shop_source"
    by (simp add: valid_source_def valid_pool_def valid_msg_def valid_field_def valid_enum_def
          shop_source_def inner_msg_def outer_msg_def color_enum_def plain_field_def cpp_type_def
          enum_type_def message_type_def pool_FindMessageTypeByName_def
          pool_FindEnumTypeByName_def)
  have b: "nan_free_pool (pool shop_source)"
    by (simp add: nan_free_pool_def nan_free_def shop_source_def inner_msg_def outer_msg_def
          plain_field_def cpp_type_def)
  have c: "list_all (nesting_within 2 (pool shop_source))
             (message_types (file_descriptor shop_source))"
    by (simp add: numeral_2_eq_2 shop_source_def inner_msg_def outer_msg_def plain_field_def
          message_type_def pool_FindMessageTypeByName_def)
  from self_comparison_trims_to_empty [OF a b c] a b c show ?thesis by blast
qed

text \<open>
  Without the condition on NaN the claim fails. For the file whose only type is
  \<open>message P { optional float x = 1 [default = nan]; }\<close> the comparison with itself
  reports a changed default value, because \<open>nan == nan\<close> is false, and the trimmed root
  keeps the section of \<open>P\<close>.
\<close>

theorem nan_default_self_comparison_counterexample:
  "valid_source nan_source
   \<and> compare_sources 1 nan_source nan_source root0
       = Inr (Section Root_Section [] []
                [Section Message_Comparison ''P'' ''P''
                   [Section Message_Field_Comparison ''P.x'' ''P.x'' []
                      [Item Message_Field_Default_Value_Changed [] []]] []] [])
   \<and> subsections
        (trim (Section Root_Section [] []
                [Section Message_Comparison ''P'' ''P''
                   [Section Message_Field_Comparison ''P.x'' ''P.x'' []
                      [Item Message_Field_Default_Value_Changed [] []]] []] [])) \<noteq> []"
  by (simp add: valid_source_def valid_pool_def valid_msg_def valid_field_def
        compare_sources_def nan_source_def nan_msg_def root0_def plain_field_def Let_def
        FindMessageTypeByName_def FindFieldByName_def compare_field.simps field_head_def
        field_tail_def cpp_type_def compare_default_value_def float_eq_def float_isnan_def)


section \<open>The report in closed form\<close>

lemma matched_Nil [simp]: "matched c [] = []"
  by (simp add: matched_def)


lemma unmatched_Nil [simp]: "unmatched c [] = []"
  by (simp add: unmatched_def)


lemma matched_found: "(x, y) \<in> set (matched c xs) \<Longrightarrow> x \<in> set xs \<and> c x = Some y"
  by (auto simp: matched_def split: option.splits)






















end
